theory Spec2Isabelle
  imports Complex_Main "HOL-Library.Log_Nat" "HOL-Library.Multiset"
begin

section \<open>JavaScript numbers and property lookup\<close>

text \<open>
  A JavaScript number is an IEEE-754 binary64 value, here a rational number. The
  integers the risk score adds and multiplies stay far below \<open>2 ^ 53\<close> (an array has
  fewer than \<open>2 ^ 32\<close> elements), so those operations are exact and are written as
  exact arithmetic. Every other operation gives the exact result rounded to the
  nearest binary64 value, ties to even: \<open>to_double\<close> is that rounding, for values in
  the normal range (no overflow, no subnormals, no \<open>NaN\<close>).
\<close>

definition round_half_even :: "rat \<Rightarrow> int" where
  "round_half_even x =
     (let f = \<lfloor>x\<rfloor>; r = x - of_int f
      in if r < 1/2 then f else if 1/2 < r then f + 1 else if even f then f else f + 1)"

text \<open>\<open>binade x\<close> is the exponent \<open>e\<close> with \<open>2 ^ e \<le> x < 2 ^ (e + 1)\<close>, for \<open>0 < x\<close>.\<close>

definition binade :: "rat \<Rightarrow> int" where
  "binade x =
     (let (p, q) = quotient_of x; k = bitlen p - bitlen q
      in if 2 powi k \<le> x then k else k - 1)"

definition to_double :: "rat \<Rightarrow> rat" where
  "to_double x =
     (if x = 0 then 0
      else let u = 2 powi (binade \<bar>x\<bar> - 52)
           in sgn x * of_int (round_half_even (\<bar>x\<bar> / u)) * u)"

text \<open>\<open>Math.round\<close>: the nearest integer, a tie going towards plus infinity.\<close>

definition js_round :: "rat \<Rightarrow> int" where
  "js_round x = \<lfloor>x + 1/2\<rfloor>"

text \<open>
  \<open>Math.sqrt\<close> is the correctly rounded square root: the binary64 value nearest to the
  exact root. \<open>isqrt n\<close> is the integer part of the root of \<open>n\<close>, \<open>nearest_sqrt y\<close>
  the integer nearest to the root of \<open>y\<close>, and \<open>math_sqrt\<close> scales its argument so
  that this integer has 53 bits. It is used on sums of squares only.
\<close>

function isqrt :: "int \<Rightarrow> int" where
  "isqrt n =
     (if n < 2 then n
      else let r = 2 * isqrt (n div 4) in if (r + 1) * (r + 1) \<le> n then r + 1 else r)"
  by pat_completeness auto
termination
  by (relation "measure nat") auto

declare isqrt.simps [simp del]

definition nearest_sqrt :: "rat \<Rightarrow> int" where
  "nearest_sqrt y =
     (let k = isqrt \<lfloor>y\<rfloor>
      in if (of_int k + 1/2) * (of_int k + 1/2) \<le> y then k + 1 else k)"

definition math_sqrt :: "rat \<Rightarrow> rat" where
  "math_sqrt m =
     (if m \<le> 0 then 0
      else let e = binade m div 2 - 52
           in of_int (nearest_sqrt (m / 2 powi (2 * e))) * 2 powi e)"

datatype js_number = Num rat | NaN

text \<open>\<open>a >= b\<close> on numbers: false as soon as one side is \<open>NaN\<close>.\<close>

fun js_ge :: "js_number \<Rightarrow> js_number \<Rightarrow> bool" where
  "js_ge (Num a) (Num b) = (b \<le> a)"
| "js_ge _ _ = False"

text \<open>
  Reading \<open>obj[key]\<close> on an object literal finds the literal's own properties first and
  then the properties every object inherits from \<open>Object.prototype\<close>; the inherited
  ones are functions (or, for \<open>__proto__\<close>, an object), all of them truthy.
\<close>

datatype 'a property = Own 'a | Inherited | Absent

datatype js_error = TypeError | SyntaxError

definition object_prototype_keys :: "string list" where
  "object_prototype_keys =
     [''constructor'', ''__defineGetter__'', ''__defineSetter__'', ''hasOwnProperty'',
      ''__lookupGetter__'', ''__lookupSetter__'', ''isPrototypeOf'',
      ''propertyIsEnumerable'', ''toString'', ''valueOf'', ''__proto__'',
      ''toLocaleString'']"

definition object_get :: "(string \<times> 'a) list \<Rightarrow> string \<Rightarrow> 'a property" where
  "object_get literal k =
     (case map_of literal k of
        Some v \<Rightarrow> Own v
      | None \<Rightarrow> if k \<in> set object_prototype_keys then Inherited else Absent)"

text \<open>A property key is a string; a missing (\<open>undefined\<close>) value used as a key reads \<open>"undefined"\<close>.\<close>

definition property_key :: "string option \<Rightarrow> string" where
  "property_key s = (case s of None \<Rightarrow> ''undefined'' | Some k \<Rightarrow> k)"

section \<open>Violations\<close>

text \<open>
  Strings are lists of characters; a character stands for one code unit of the
  program's strings, so \<open>take n\<close> is \<open>substring(0, n)\<close>.
\<close>

record raw_node =
  html :: string
  target :: "string list"

record enhanced_node =
  node_html :: string
  node_target :: string

datatype suggestion_payload =
  Suggestion (s_id: string) (s_text: string) (s_model: "string option")
    (s_timestamp: string) (s_cached: bool)
| ErrorPayload (e_id: string) (e_error: string) (e_fallback: "string option")
    (e_cached: bool)

text \<open>
  One record for a violation as the rule engine reports it and as the orchestrator
  passes it on: \<open>nodes\<close> holds raw nodes in the first case and enhanced nodes in the
  second; \<open>severity\<close> and \<open>suggestion\<close> are \<open>None\<close> while the property is missing.
\<close>

record 'n violation =
  vid :: string
  impact :: "string option"
  description :: string
  helpUrl :: "string option"
  tags :: "string list"
  nodes :: "'n list"
  severity :: "string option"
  suggestion :: "suggestion_payload option"

section \<open>Risk scoring (\<open>calculateRiskScore\<close>)\<close>

definition SEVERITY_WEIGHTS :: "(string \<times> nat) list" where
  "SEVERITY_WEIGHTS = [(''critical'', 10), (''high'', 6), (''medium'', 3), (''low'', 1)]"

text \<open>
  The accumulator of the \<open>reduce\<close>: a number, until \<open>+\<close> meets an inherited property,
  which turns the sum into a string (\<open>0 + Object\<close> is string concatenation) that no
  later \<open>+\<close> makes numeric again.
\<close>

datatype accumulator = Number rat | Text

definition add_weight :: "accumulator \<Rightarrow> 'n violation \<Rightarrow> accumulator" where
  "add_weight tot v =
     (case tot of
        Text \<Rightarrow> Text
      | Number t \<Rightarrow>
          (case object_get SEVERITY_WEIGHTS (property_key (severity v)) of
             Own w \<Rightarrow> if w = 0 then Number (t + 1) else Number (t + of_nat w)
           | Absent \<Rightarrow> Number (t + 1)
           | Inherited \<Rightarrow> Text))"

definition rawScore :: "'n violation list \<Rightarrow> accumulator" where
  "rawScore violations = foldl add_weight (Number 0) violations"

definition maxPossibleScore :: "'n violation list \<Rightarrow> rat" where
  "maxPossibleScore violations =
     of_nat (length violations) *
     (case map_of SEVERITY_WEIGHTS ''critical'' of Some w \<Rightarrow> of_nat w | None \<Rightarrow> 0)"

definition calculateRiskScore :: "'n violation list \<Rightarrow> js_number" where
  "calculateRiskScore violations =
     (if maxPossibleScore violations > 0
      then (case rawScore violations of
              Number r \<Rightarrow>
                Num (of_int (min (js_round
                  (to_double (to_double (r / maxPossibleScore violations) * 100))) 100))
            | Text \<Rightarrow> NaN)
      else Num 0)"

text \<open>
  The reference definition, in the words of the specification: weights critical=10,
  high=6, medium=3, low=1, unknown=1; rawScore is the sum of the weights, the normalizer
  is count times the weight of critical, and the score is 0 for no violations and
  otherwise min(round(rawScore / normalizer times 100), 100), in exact arithmetic.
\<close>

datatype severity_level = Critical | High | Medium | Low | Unknown

fun severity_name :: "severity_level \<Rightarrow> string" where
  "severity_name Critical = ''critical''"
| "severity_name High = ''high''"
| "severity_name Medium = ''medium''"
| "severity_name Low = ''low''"
| "severity_name Unknown = ''unknown''"

fun weight :: "severity_level \<Rightarrow> nat" where
  "weight Critical = 10"
| "weight High = 6"
| "weight Medium = 3"
| "weight Low = 1"
| "weight Unknown = 1"

definition spec_risk_score :: "severity_level list \<Rightarrow> int" where
  "spec_risk_score ls =
     (if ls = [] then 0
      else min (js_round
             (of_nat (sum_list (map weight ls)) / of_nat (length ls * weight Critical) * 100))
           100)"

text \<open>
  The score the program computes for violations of these severities, as a function of
  the severities: the quotient and the product are rounded to binary64.
\<close>

definition binary64_score :: "severity_level list \<Rightarrow> int" where
  "binary64_score ls =
     (if ls = [] then 0
      else min (js_round (to_double (to_double
             (of_nat (sum_list (map weight ls)) / of_nat (length ls * weight Critical)) * 100)))
           100)"

text \<open>A violation that carries only a severity, for evaluating the score.\<close>

definition violation_with_severity :: "string \<Rightarrow> enhanced_node violation" where
  "violation_with_severity s =
     \<lparr>vid = ''rule'', impact = None, description = ''d'', helpUrl = None, tags = [],
      nodes = [], severity = Some s, suggestion = None\<rparr>"

section \<open>Suggestion cache (\<open>generateFixSuggestions\<close>)\<close>

text \<open>
  The cache key is the JSON text of \<open>{id, html, impact, helpUrl}\<close>, where \<open>html\<close> is
  the first node's HTML with every run of whitespace replaced by one space and then
  trimmed; the tuple of the four values stands for that text. Strings are lists of
  \<^typ>\<open>char\<close>, and \<open>\s\<close> is taken on the ASCII white-space characters.
\<close>

definition is_space :: "char \<Rightarrow> bool" where
  "is_space c = (c \<in> {CHR '' '', CHR 0x09, CHR 0x0A, CHR 0x0B, CHR 0x0C, CHR 0x0D})"

function collapse_whitespace :: "string \<Rightarrow> string" where
  "collapse_whitespace [] = []"
| "collapse_whitespace (c # cs) =
     (if is_space c then CHR '' '' # collapse_whitespace (dropWhile is_space cs)
      else c # collapse_whitespace cs)"
  by pat_completeness auto
termination
  by (relation "measure length") (auto simp: less_Suc_eq_le length_dropWhile_le)

definition trim :: "string \<Rightarrow> string" where
  "trim s = rev (dropWhile is_space (rev (dropWhile is_space s)))"

type_synonym cache_key = "string \<times> string \<times> string option \<times> string option"

type_synonym response_cache = "cache_key \<rightharpoonup> suggestion_payload"

definition cacheKey :: "enhanced_node violation \<Rightarrow> js_error + cache_key" where
  "cacheKey v =
     (case nodes v of
        [] \<Rightarrow> Inl TypeError
      | n # _ \<Rightarrow> Inr (vid v, trim (collapse_whitespace (node_html n)), impact v, helpUrl v))"

definition VIOLATION_TEMPLATES :: "(string \<times> string) list" where
  "VIOLATION_TEMPLATES =
     [(''color-contrast'',
       ''Fix color contrast ratio of at least 4.5:1 for normal text. Current element: {html}''),
      (''image-alt'', ''Add descriptive alt text to this image: {html}''),
      (''empty-heading'', ''Remove or add content to this empty heading: {html}'')]"

text \<open>
  What the external suggestion provider does with one request: it rejects (time-out,
  rate limit, service error; the error may carry a \<open>code\<close>), or it answers with a
  message whose content is a text or \<open>null\<close>. The wording of the prompt is not
  modelled; the outcome of the call is given.
\<close>

datatype completion = Rejected "string option" | Completed "string option"

record environment =
  OPENAI_MODEL :: "string option"
  now :: string

definition with_cached :: "suggestion_payload \<Rightarrow> suggestion_payload" where
  "with_cached p =
     (case p of
        Suggestion i t m ts _ \<Rightarrow> Suggestion i t m ts True
      | ErrorPayload i e f _ \<Rightarrow> ErrorPayload i e f True)"

text \<open>
  The body of the \<open>try\<close>: the template lookup (calling \<open>replace\<close> on an inherited
  property raises), the provider call, and the reading of the reply (\<open>includes\<close> on a
  \<open>null\<close> content raises). \<open>Inl\<close> is the \<open>code\<close> of the error caught, if any.
\<close>

definition try_completion :: "enhanced_node violation \<Rightarrow> completion \<Rightarrow> string option + string" where
  "try_completion v reply =
     (case object_get VIOLATION_TEMPLATES (vid v) of
        Inherited \<Rightarrow> Inl None
      | _ \<Rightarrow>
          (case reply of
             Rejected code \<Rightarrow> Inl code
           | Completed None \<Rightarrow> Inl None
           | Completed (Some content) \<Rightarrow> Inr (trim content)))"

text \<open>
  One call up to its result: the payload returned, and the entry the call writes into
  the cache, if any. \<open>Inl\<close> is an exception that leaves the function.
\<close>

definition suggestion_for ::
  "environment \<Rightarrow> response_cache \<Rightarrow> enhanced_node violation \<Rightarrow> completion
     \<Rightarrow> js_error + suggestion_payload \<times> (cache_key \<times> suggestion_payload) option" where
  "suggestion_for env cache v reply =
     (case cacheKey v of
        Inl e \<Rightarrow> Inl e
      | Inr key \<Rightarrow>
          (case cache key of
             Some cached \<Rightarrow> Inr (with_cached cached, None)
           | None \<Rightarrow>
               (case try_completion v reply of
                  Inr text \<Rightarrow>
                    let result = Suggestion (vid v) text (OPENAI_MODEL env) (now env) False
                    in Inr (result, Some (key, result))
                | Inl code \<Rightarrow>
                    Inr (ErrorPayload (vid v)
                           (''AI Service Unavailable: '' @
                              (case code of None \<Rightarrow> ''Timeout''
                               | Some c \<Rightarrow> if c = [] then ''Timeout'' else c))
                           (helpUrl v) False,
                         None))))"

definition cache_set ::
  "response_cache \<Rightarrow> (cache_key \<times> suggestion_payload) option \<Rightarrow> response_cache" where
  "cache_set cache w = (case w of None \<Rightarrow> cache | Some (key, result) \<Rightarrow> cache(key \<mapsto> result))"

definition generateFixSuggestions ::
  "environment \<Rightarrow> response_cache \<Rightarrow> enhanced_node violation \<Rightarrow> completion
     \<Rightarrow> (js_error + suggestion_payload) \<times> response_cache" where
  "generateFixSuggestions env cache v reply =
     (case suggestion_for env cache v reply of
        Inl e \<Rightarrow> (Inl e, cache)
      | Inr (payload, w) \<Rightarrow> (Inr payload, cache_set cache w))"

section \<open>Scan orchestrator (\<open>enhanceResults\<close>)\<close>

definition SEVERITY_MAPPING :: "(string \<times> string list) list" where
  "SEVERITY_MAPPING =
     [(''critical'', [''serious'', ''critical'']),
      (''high'', [''moderate'']),
      (''medium'', [''minor'']),
      (''low'', [''cosmetic''])]"

text \<open>
  \<open>Object.keys(SEVERITY_MAPPING).find(level => SEVERITY_MAPPING[level].includes(impact))
  || 'unknown'\<close>; a missing impact is in none of the arrays.
\<close>

definition severity_of :: "string option \<Rightarrow> string" where
  "severity_of imp =
     (case find (\<lambda>level. case map_of SEVERITY_MAPPING level of
                          Some impacts \<Rightarrow> (case imp of Some i \<Rightarrow> i \<in> set impacts | None \<Rightarrow> False)
                        | None \<Rightarrow> False)
             (map fst SEVERITY_MAPPING) of
        Some level \<Rightarrow> if level = [] then ''unknown'' else level
      | None \<Rightarrow> ''unknown'')"

fun join :: "string \<Rightarrow> string list \<Rightarrow> string" where
  "join sep [] = []"
| "join sep [x] = x"
| "join sep (x # y # ys) = x @ sep @ join sep (y # ys)"

definition enhance_node :: "raw_node \<Rightarrow> enhanced_node" where
  "enhance_node n = \<lparr>node_html = take 500 (html n), node_target = join '' > '' (target n)\<rparr>"

text \<open>The violation handed to \<open>generateFixSuggestions\<close>: \<open>{...violation, severity, nodes}\<close>.\<close>

definition with_severity :: "raw_node violation \<Rightarrow> enhanced_node violation" where
  "with_severity v =
     \<lparr>vid = vid v, impact = impact v, description = description v, helpUrl = helpUrl v,
      tags = tags v, nodes = map enhance_node (nodes v),
      severity = Some (severity_of (impact v)), suggestion = suggestion v\<rparr>"

definition BATCH_SIZE :: nat where
  "BATCH_SIZE = 5"

function batches :: "'a list \<Rightarrow> 'a list list" where
  "batches xs = (if xs = [] then [] else take BATCH_SIZE xs # batches (drop BATCH_SIZE xs))"
  by pat_completeness auto
termination
  by (relation "measure length") (auto simp: BATCH_SIZE_def)

declare batches.simps [simp del]

text \<open>
  One batch under \<open>Promise.all\<close>: every callback runs up to its first suspension before
  any reply arrives, so each cache lookup of the batch sees the cache as it is when the
  batch starts; the writes of the batch are then applied, here in the order of the
  batch. The batch fails when one of its calls raises.
\<close>

fun collect :: "(js_error + 'a) list \<Rightarrow> js_error + 'a list" where
  "collect [] = Inr []"
| "collect (Inl e # rs) = Inl e"
| "collect (Inr x # rs) = (case collect rs of Inl e \<Rightarrow> Inl e | Inr xs \<Rightarrow> Inr (x # xs))"

definition enhance_one ::
  "environment \<Rightarrow> response_cache \<Rightarrow> raw_node violation \<times> completion
     \<Rightarrow> js_error + enhanced_node violation \<times> (cache_key \<times> suggestion_payload) option" where
  "enhance_one env cache vr =
     (let v = with_severity (fst vr)
      in case suggestion_for env cache v (snd vr) of
           Inl e \<Rightarrow> Inl e
         | Inr (payload, w) \<Rightarrow> Inr (v\<lparr>suggestion := Some payload\<rparr>, w))"

definition enhance_batch ::
  "environment \<Rightarrow> response_cache \<Rightarrow> (raw_node violation \<times> completion) list
     \<Rightarrow> (js_error + enhanced_node violation list) \<times> response_cache" where
  "enhance_batch env cache batch =
     (let outcomes = map (enhance_one env cache) batch
      in (case collect outcomes of Inl e \<Rightarrow> Inl e | Inr rs \<Rightarrow> Inr (map fst rs),
          foldl (\<lambda>c r. case r of Inl _ \<Rightarrow> c | Inr (_, w) \<Rightarrow> cache_set c w) cache outcomes))"

fun enhance_batches ::
  "environment \<Rightarrow> response_cache \<Rightarrow> (raw_node violation \<times> completion) list list
     \<Rightarrow> (js_error + enhanced_node violation list) \<times> response_cache" where
  "enhance_batches env cache [] = (Inr [], cache)"
| "enhance_batches env cache (b # bs) =
     (case enhance_batch env cache b of
        (Inl e, c) \<Rightarrow> (Inl e, c)
      | (Inr vs, c) \<Rightarrow>
          (case enhance_batches env c bs of
             (Inl e, c') \<Rightarrow> (Inl e, c')
           | (Inr ws, c') \<Rightarrow> (Inr (vs @ ws), c')))"

record metrics =
  riskScore :: js_number
  violationCount :: nat
  severityBreakdown :: "string \<rightharpoonup> nat"

record enhanced_results =
  violations :: "enhanced_node violation list"
  scan_metrics :: metrics
  scannedAt :: string

definition count_severity :: "(string \<rightharpoonup> nat) \<Rightarrow> enhanced_node violation \<Rightarrow> (string \<rightharpoonup> nat)" where
  "count_severity acc v =
     (let k = property_key (severity v)
      in acc(k \<mapsto> (case acc k of None \<Rightarrow> 0 | Some c \<Rightarrow> c) + 1))"

text \<open>
  \<open>enhanceResults\<close> on the violations of a scan, the \<open>i\<close>-th of which gets the reply
  \<open>replies i\<close> from the provider if its suggestion is asked for.
\<close>

definition enhanceResults ::
  "environment \<Rightarrow> response_cache \<Rightarrow> (nat \<Rightarrow> completion) \<Rightarrow> raw_node violation list
     \<Rightarrow> (js_error + enhanced_results) \<times> response_cache" where
  "enhanceResults env cache replies vs =
     (case enhance_batches env cache
             (batches (zip vs (map replies [0..<length vs]))) of
        (Inl e, c) \<Rightarrow> (Inl e, c)
      | (Inr processedViolations, c) \<Rightarrow>
          (Inr \<lparr>violations = processedViolations,
                scan_metrics =
                  \<lparr>riskScore = calculateRiskScore processedViolations,
                   violationCount = length processedViolations,
                   severityBreakdown = foldl count_severity Map.empty processedViolations\<rparr>,
                scannedAt = now env\<rparr>,
           c))"

section \<open>Crawler (\<open>SiteCrawler.crawl\<close>)\<close>

text \<open>
  The browser and the URL parser are outside the program: \<open>fetch url\<close> is what opening
  the page gives (a failure anywhere in the \<open>try\<close>, or the title and the \<open>href\<close>s of
  the page), and \<open>hostname\<close> is the host name of a URL, \<open>None\<close> where \<open>new URL\<close>
  raises. The state of a run is the queue, the crawler's \<open>visited\<close> set, the \<open>pages\<close>
  recorded so far, and the sequence of URLs the run has tried to open.
\<close>

datatype fetch_result = FetchError | Page string "string list"

record crawl_state =
  queue :: "(string \<times> nat) list"
  visited :: "string set"
  pages :: "(string \<times> string) list"
  fetched :: "string list"

definition starts_with_http :: "string \<Rightarrow> bool" where
  "starts_with_http href = (take 4 href = ''http'')"

definition internal_links :: "(string \<Rightarrow> string option) \<Rightarrow> string \<Rightarrow> string list \<Rightarrow> string list" where
  "internal_links hostname domain hrefs =
     filter (\<lambda>link. hostname link = Some domain) (filter starts_with_http hrefs)"

text \<open>One turn of the \<open>while\<close> loop.\<close>

definition crawl_step ::
  "(string \<Rightarrow> fetch_result) \<Rightarrow> (string \<Rightarrow> string option) \<Rightarrow> string \<Rightarrow> nat
     \<Rightarrow> crawl_state \<Rightarrow> crawl_state" where
  "crawl_step fetch hostname domain maxDepth s =
     (case queue s of
        [] \<Rightarrow> s
      | (url, depth) # rest \<Rightarrow>
          if depth > maxDepth \<or> url \<in> visited s then s\<lparr>queue := rest\<rparr>
          else
            let s' = s\<lparr>queue := rest, visited := insert url (visited s),
                        fetched := fetched s @ [url]\<rparr>
            in case fetch url of
                 FetchError \<Rightarrow> s'
               | Page title hrefs \<Rightarrow>
                   s'\<lparr>pages := pages s' @ [(url, title)],
                      queue := rest @ map (\<lambda>link. (link, depth + 1))
                                        (internal_links hostname domain hrefs)\<rparr>)"

definition queue_weight :: "nat \<Rightarrow> crawl_state \<Rightarrow> nat multiset" where
  "queue_weight maxDepth s = mset (map (\<lambda>(url, depth). Suc maxDepth - depth) (queue s))"

function crawl_loop ::
  "(string \<Rightarrow> fetch_result) \<Rightarrow> (string \<Rightarrow> string option) \<Rightarrow> string \<Rightarrow> nat
     \<Rightarrow> crawl_state \<Rightarrow> crawl_state" where
  "crawl_loop fetch hostname domain maxDepth s =
     (if queue s = [] then s
      else crawl_loop fetch hostname domain maxDepth
             (crawl_step fetch hostname domain maxDepth s))"
  by pat_completeness auto
termination
proof (relation "inv_image (mult {(a, b). a < b})
    (\<lambda>(fetch, hostname, domain, maxDepth, s). queue_weight maxDepth s)")
  show "wf (inv_image (mult {(a, b). a < b})
    (\<lambda>(fetch :: string \<Rightarrow> fetch_result, hostname :: string \<Rightarrow> string option,
        domain :: string, maxDepth, s). queue_weight maxDepth s))"
    by (intro wf_inv_image wf_mult) (simp add: wf_less)
next
  fix fetch :: "string \<Rightarrow> fetch_result" and hostname :: "string \<Rightarrow> string option"
    and domain :: string and maxDepth :: nat and s :: crawl_state
  assume "queue s \<noteq> []"
  then obtain url depth rest where q: "queue s = (url, depth) # rest"
    by (cases "queue s") auto
  define I where "I = mset (map (\<lambda>(url, depth). Suc maxDepth - depth) rest)"
  have old: "queue_weight maxDepth s = I + {#Suc maxDepth - depth#}"
    by (simp add: queue_weight_def q I_def)
  have "(queue_weight maxDepth (crawl_step fetch hostname domain maxDepth s),
         queue_weight maxDepth s) \<in> mult {(a, b). a < b}"
  proof (cases "depth > maxDepth \<or> url \<in> visited s \<or> fetch url = FetchError")
    case True
    then have "queue_weight maxDepth (crawl_step fetch hostname domain maxDepth s) = I + {#}"
      by (auto simp: crawl_step_def q queue_weight_def I_def Let_def)
    then show ?thesis unfolding old
      by (simp only:) (rule one_step_implies_mult, simp_all)
  next
    case False
    then obtain title hrefs where f: "fetch url = Page title hrefs"
      by (cases "fetch url") auto
    define K where "K = mset (map (\<lambda>(url, depth). Suc maxDepth - depth)
        (map (\<lambda>link. (link, depth + 1)) (internal_links hostname domain hrefs)))"
    have new: "queue_weight maxDepth (crawl_step fetch hostname domain maxDepth s) = I + K"
      using False by (simp add: crawl_step_def q queue_weight_def I_def K_def Let_def f)
    have "\<forall>k \<in># K. \<exists>j \<in># {#Suc maxDepth - depth#}. (k, j) \<in> {(a, b). a < b}"
      using False by (auto simp: K_def)
    then show ?thesis unfolding old new
      by (intro one_step_implies_mult) simp_all
  qed
  then show "((fetch, hostname, domain, maxDepth, crawl_step fetch hostname domain maxDepth s),
              (fetch, hostname, domain, maxDepth, s))
      \<in> inv_image (mult {(a, b). a < b})
          (\<lambda>(fetch, hostname, domain, maxDepth, s). queue_weight maxDepth s)"
    by simp
qed

text \<open>The equation of \<open>crawl_loop\<close> is unfolded by hand, never by the simplifier.\<close>

declare crawl_loop.simps [simp del]

text \<open>
  The state a run starts from: the queue seeded with the start URL at depth 0, and the
  \<open>visited\<close> set of the crawler object as it is when \<open>crawl\<close> is called (empty for a
  new crawler).
\<close>

definition initial_state :: "string set \<Rightarrow> string \<Rightarrow> crawl_state" where
  "initial_state visited0 baseUrl =
     \<lparr>queue = [(baseUrl, 0)], visited = visited0, pages = [], fetched = []\<rparr>"

text \<open>
  What holds of every state of a run that starts with the visited set \<open>visited0\<close>:
  no URL was opened twice, every URL opened is marked visited and was not visited
  before the run, and the pages recorded are among the URLs opened, each once.
\<close>

definition crawl_inv :: "string set \<Rightarrow> crawl_state \<Rightarrow> bool" where
  "crawl_inv visited0 s \<longleftrightarrow>
     distinct (fetched s) \<and> set (fetched s) \<subseteq> visited s \<and> visited0 \<subseteq> visited s
     \<and> set (fetched s) \<inter> visited0 = {}
     \<and> distinct (map fst (pages s)) \<and> set (map fst (pages s)) \<subseteq> set (fetched s)"

definition crawl ::
  "(string \<Rightarrow> fetch_result) \<Rightarrow> (string \<Rightarrow> string option) \<Rightarrow> string set \<Rightarrow> string \<Rightarrow> nat
     \<Rightarrow> js_error + crawl_state" where
  "crawl fetch hostname visited0 baseUrl maxDepth =
     (case hostname baseUrl of
        None \<Rightarrow> Inl TypeError
      | Some domain \<Rightarrow>
          Inr (crawl_loop fetch hostname domain maxDepth (initial_state visited0 baseUrl)))"

section \<open>Embedding codec and cosine similarity\<close>

text \<open>
  The numbers of an embedding are binary64 values, and every product, quotient, sum
  and square root below is rounded to binary64. The text of an embedding column is an
  empty string, the JSON text of an array of numbers, or any other text (one that
  \<open>JSON.parse\<close> rejects, or that denotes no array of numbers).
\<close>

datatype embedding_text = EmptyText | ArrayText "rat list" | OtherText

datatype vector_arg = Missing | Array "rat list" | String embedding_text




definition falsy :: "vector_arg \<Rightarrow> bool" where
  "falsy a = (a = Missing \<or> a = String EmptyText)"

definition decompress :: "vector_arg \<Rightarrow> js_error + rat list" where
  "decompress embedding =
     (case embedding of
        String (ArrayText xs) \<Rightarrow> Inr (map (\<lambda>val. to_double (val / 127)) xs)
      | String _ \<Rightarrow> Inl SyntaxError
      | Array xs \<Rightarrow> Inr xs
      | Missing \<Rightarrow> Inl TypeError)"

definition dot_and_magnitudes :: "rat list \<Rightarrow> rat list \<Rightarrow> rat \<times> rat \<times> rat" where
  "dot_and_magnitudes a b =
     foldl (\<lambda>(dot, magA, magB) (x, y).
              (to_double (dot + to_double (x * y)), to_double (magA + to_double (x * x)),
               to_double (magB + to_double (y * y))))
       (0, 0, 0) (zip a b)"

definition cosineSimilarity :: "vector_arg \<Rightarrow> vector_arg \<Rightarrow> js_error + rat" where
  "cosineSimilarity vecA vecB =
     (if falsy vecA \<or> falsy vecB then Inr 0
      else case decompress vecA of
             Inl e \<Rightarrow> Inl e
           | Inr a \<Rightarrow>
               (case decompress vecB of
                  Inl e \<Rightarrow> Inl e
                | Inr b \<Rightarrow>
                    if length a \<noteq> length b then Inr 0
                    else let (dot, magA, magB) = dot_and_magnitudes a b
                         in Inr (if magA \<noteq> 0 \<and> magB \<noteq> 0
                                 then to_double
                                        (dot / to_double (math_sqrt magA * math_sqrt magB))
                                 else 0)))"

text \<open>The sum of squares the loop accumulates for one vector, from the start value \<open>m\<close>.\<close>

definition magnitude :: "rat \<Rightarrow> rat list \<Rightarrow> rat" where
  "magnitude m a = foldl (\<lambda>m x. to_double (m + to_double (x * x))) m a"

section \<open>Semantic search (\<open>SearchEngine.semanticSearch\<close>)\<close>

text \<open>
  The class defines \<open>semanticSearch\<close> twice; the later definition, with the contextual
  query template, is the one the class keeps, and the one modelled. The embedding
  provider and the database are outside the program: what they answer is given.
\<close>

datatype embed_outcome = EmbedError | Embedded "rat list option"

datatype 'r db_result = DbError | Rows "'r list"

record search_row =
  row_id :: nat
  row_violation_id :: string
  row_description :: string
  row_severity :: string
  row_embedding :: "embedding_text option"
  row_url :: string
  row_title :: string
  row_domain :: string

text \<open>\<open>SearchEngine.generateEmbedding\<close>: the empty array when the provider fails.\<close>

definition generateEmbedding :: "embed_outcome \<Rightarrow> rat list option" where
  "generateEmbedding outcome = (case outcome of EmbedError \<Rightarrow> Some [] | Embedded e \<Rightarrow> e)"

definition similarity_of :: "rat list \<Rightarrow> search_row \<Rightarrow> (search_row \<times> rat) option" where
  "similarity_of queryEmbedding v =
     (case row_embedding v of
        Some (ArrayText vec) \<Rightarrow>
          if length vec \<noteq> length queryEmbedding then None
          else (case cosineSimilarity (Array queryEmbedding) (Array vec) of
                  Inr similarity \<Rightarrow> Some (v, similarity)
                | Inl _ \<Rightarrow> None)
      | _ \<Rightarrow> None)"

text \<open>
  \<open>sort((a, b) => b.similarity - a.similarity)\<close> is a stable sort by descending
  similarity, as \<open>sort_key\<close> on the negated similarity is. \<open>limit\<close> is a count. The
  literal \<open>0.3\<close> is the binary64 value nearest to 3/10, which lies just below it; a
  binary64 similarity is above the one exactly when it is above the other.
\<close>

definition semanticSearch ::
  "embed_outcome \<Rightarrow> search_row db_result \<Rightarrow> nat \<Rightarrow> (search_row \<times> rat) list" where
  "semanticSearch embedded queried limit =
     (case generateEmbedding embedded of
        None \<Rightarrow> []
      | Some queryEmbedding \<Rightarrow>
          if queryEmbedding = [] then []
          else (case queried of
                  DbError \<Rightarrow> []
                | Rows rows \<Rightarrow>
                    take limit
                      (sort_key (\<lambda>r. - snd r)
                        (filter (\<lambda>r. snd r > 3 / 10)
                          (List.map_filter (similarity_of queryEmbedding) rows)))))"

section \<open>Persistence (\<open>AIIndexer.storePageResults\<close>)\<close>

text \<open>
  The relational store is the SQLite engine, which the program reaches through the
  \<open>sqlite3\<close> driver. Its tables and constraints are those of the schema the program
  creates: unique \<open>websites.domain\<close> and \<open>pages.url\<close>,
  \<open>AUTOINCREMENT\<close> keys, and foreign keys with \<open>ON DELETE CASCADE\<close> (enforced). A
  statement that fails changes nothing. \<open>BEGIN\<close> keeps the tables as they are at that
  moment and \<open>ROLLBACK\<close> puts them back. The \<open>last_scanned\<close> columns are left out.
\<close>

record website_row =
  website_id :: nat
  website_domain :: string
  compliance_score :: js_number

record page_row =
  page_id :: nat
  page_website_id :: nat
  page_url :: string
  page_title :: string
  page_risk_score :: js_number
  page_scan_data :: enhanced_results

record violation_row =
  vrow_id :: nat
  vrow_page_id :: nat
  vrow_violation_id :: string
  vrow_description :: string
  vrow_severity :: "string option"
  vrow_html :: string
  vrow_suggestion :: string
  vrow_embedding :: "embedding_text option"

record tables =
  tbl_websites :: "website_row list"
  tbl_pages :: "page_row list"
  tbl_violations :: "violation_row list"
  seq_websites :: nat
  seq_pages :: nat
  seq_violations :: nat

text \<open>\<open>saved\<close> holds the tables a \<open>ROLLBACK\<close> would restore, while a transaction is open.\<close>

record database =
  current :: tables
  saved :: "tables option"

definition begin_transaction :: "database \<Rightarrow> database" where
  "begin_transaction db = (case saved db of None \<Rightarrow> db\<lparr>saved := Some (current db)\<rparr> | Some _ \<Rightarrow> db)"

definition rollback :: "database \<Rightarrow> database" where
  "rollback db = (case saved db of None \<Rightarrow> db | Some t \<Rightarrow> \<lparr>current = t, saved = None\<rparr>)"

text \<open>Deleting pages deletes their violations; deleting websites deletes their pages.\<close>

definition delete_pages :: "(page_row \<Rightarrow> bool) \<Rightarrow> tables \<Rightarrow> tables" where
  "delete_pages doomed t =
     t\<lparr>tbl_pages := filter (\<lambda>p. \<not> doomed p) (tbl_pages t),
       tbl_violations :=
         filter (\<lambda>v. vrow_page_id v \<notin> page_id ` set (filter doomed (tbl_pages t)))
           (tbl_violations t)\<rparr>"

definition delete_websites :: "(website_row \<Rightarrow> bool) \<Rightarrow> tables \<Rightarrow> tables" where
  "delete_websites doomed t =
     (delete_pages (\<lambda>p. page_website_id p \<in> website_id ` set (filter doomed (tbl_websites t))) t)
       \<lparr>tbl_websites := filter (\<lambda>w. \<not> doomed w) (tbl_websites t)\<rparr>"

text \<open>\<open>INSERT OR REPLACE INTO websites (domain, compliance_score)\<close>.\<close>

definition replace_website :: "string \<Rightarrow> js_number \<Rightarrow> tables \<Rightarrow> tables" where
  "replace_website domain score t =
     (let t' = delete_websites (\<lambda>w. website_domain w = domain) t;
          new_id = Suc (seq_websites t')
      in t'\<lparr>tbl_websites := tbl_websites t' @
               [\<lparr>website_id = new_id, website_domain = domain, compliance_score = score\<rparr>],
             seq_websites := new_id\<rparr>)"

text \<open>
  \<open>INSERT OR REPLACE INTO pages\<close> with \<open>website_id\<close> from the sub-select on the domain;
  the column is \<open>NOT NULL\<close>, so the statement fails when no website has the domain.
  The result carries the key of the new row.
\<close>

definition replace_page ::
  "string \<Rightarrow> string \<Rightarrow> string \<Rightarrow> js_number \<Rightarrow> enhanced_results \<Rightarrow> tables
     \<Rightarrow> (tables \<times> nat) option" where
  "replace_page domain url title risk scanData t =
     (case find (\<lambda>w. website_domain w = domain) (tbl_websites t) of
        None \<Rightarrow> None
      | Some w \<Rightarrow>
          let t' = delete_pages (\<lambda>p. page_url p = url) t;
              new_id = Suc (seq_pages t')
          in Some (t'\<lparr>tbl_pages := tbl_pages t' @
                        [\<lparr>page_id = new_id, page_website_id = website_id w, page_url = url,
                          page_title = title, page_risk_score = risk,
                          page_scan_data = scanData\<rparr>],
                      seq_pages := new_id\<rparr>,
                   new_id))"

definition on_current :: "(tables \<Rightarrow> tables) \<Rightarrow> database \<Rightarrow> database" where
  "on_current f db = db\<lparr>current := f (current db)\<rparr>"

text \<open>What can go wrong in the store: each of the two upserts may fail.\<close>

record faults =
  website_fails :: bool
  page_fails :: bool

datatype db_error = StatementFailed

text \<open>
  What becomes of the promise \<open>storePageResults\<close> returns: it resolves, it rejects, or
  neither \<open>resolve\<close> nor \<open>reject\<close> is ever called.
\<close>

datatype settlement = Resolves | Rejects db_error | NeverSettles

text \<open>
  \<open>storePageResults\<close> issues \<open>BEGIN TRANSACTION\<close> and the website upsert. The callback
  of the website upsert is an arrow function, so \<open>this\<close> in it is the indexer: when
  the upsert fails, \<open>this.db.run('ROLLBACK')\<close> rolls back and the promise rejects.
  Otherwise it issues the page upsert, whose callback is written
  \<open>async function(err)\<close>: the driver calls it with the statement object as \<open>this\<close>
  (the callback reads \<open>this.lastID\<close>), and a statement has no property \<open>db\<close>. So in
  that callback every \<open>this.db.run(...)\<close> raises a \<open>TypeError\<close>:
  \<^item> when the page upsert has failed, \<open>this.db.run('ROLLBACK')\<close> raises before
    \<open>reject(err)\<close> is reached;
  \<^item> when it has succeeded, the \<open>DELETE\<close> raises inside the \<open>try\<close> (the inserts and
    the \<open>COMMIT\<close> are never reached), and in the \<open>catch\<close> the \<open>ROLLBACK\<close> raises
    before \<open>reject(err)\<close> is reached.
  Either way the error leaves the callback, whose own promise nobody handles: the
  promise of \<open>storePageResults\<close> is never settled, and the transaction stays open
  with the upserts that succeeded in it. The program installs no handler for
  unhandled rejections; what the runtime does with this one is not modelled.
\<close>

definition storePageResults ::
  "faults \<Rightarrow> database \<Rightarrow> string \<Rightarrow> string \<Rightarrow> string \<Rightarrow> enhanced_results
     \<Rightarrow> settlement \<times> database" where
  "storePageResults f db domain url title scanData =
     (let risk = riskScore (scan_metrics scanData);
          complianceScore = (case risk of Num r \<Rightarrow> Num (100 - r) | NaN \<Rightarrow> NaN);
          db1 = begin_transaction db
      in if website_fails f then (Rejects StatementFailed, rollback db1)
         else
           let db2 = on_current (replace_website domain complianceScore) db1
           in case (if page_fails f then None
                    else replace_page domain url title risk scanData (current db2)) of
                None \<Rightarrow> (NeverSettles, db2)
              | Some (t3, pageId) \<Rightarrow> (NeverSettles, db2\<lparr>current := t3\<rparr>))"

text \<open>
  What a reader on the same connection finds as the violations of the page with a URL.
\<close>

definition violations_of_page :: "database \<Rightarrow> string \<Rightarrow> violation_row list" where
  "violations_of_page db url =
     filter (\<lambda>v. vrow_page_id v \<in> page_id ` set (filter (\<lambda>p. page_url p = url)
                                                       (tbl_pages (current db))))
       (tbl_violations (current db))"

section \<open>Example inputs\<close>

definition example_violation :: "raw_node violation" where
  "example_violation =
     \<lparr>vid = ''image-alt'', impact = Some ''serious'',
      description = ''Images must have alternate text'',
      helpUrl = Some ''https://example.org/rules/image-alt'', tags = [''wcag2a''],
      nodes = [\<lparr>html = ''<img src=a.png>'', target = [''html'', ''img'']\<rparr>],
      severity = None, suggestion = None\<rparr>"

definition example_environment :: environment where
  "example_environment = \<lparr>OPENAI_MODEL = None, now = ''2024-01-01T00:00:00.000Z''\<rparr>"

definition provider_down :: "nat \<Rightarrow> completion" where
  "provider_down i = Rejected None"

definition example_site :: "string \<Rightarrow> fetch_result" where
  "example_site url =
     (if url = ''http://a.org/''
      then Page ''Home'' [''http://a.org/x'', ''http://a.org/y'', ''mailto:me'']
      else if url = ''http://a.org/x''
      then Page ''X'' [''http://a.org/y'', ''http://a.org/'', ''http://b.org/'']
      else if url = ''http://a.org/y'' then Page ''Y'' [''http://a.org/x'']
      else FetchError)"

definition example_hostname :: "string \<Rightarrow> string option" where
  "example_hostname url =
     (if take 13 url = ''http://a.org/'' then Some ''a.org''
      else if take 13 url = ''http://b.org/'' then Some ''b.org''
      else None)"

definition revisiting_state :: crawl_state where
  "revisiting_state =
     \<lparr>queue = [(''http://a.org/'', 1), (''http://a.org/y'', 1)], visited = {''http://a.org/''},
      pages = [(''http://a.org/'', ''Home'')], fetched = [''http://a.org/'']\<rparr>"

definition example_row :: "nat \<Rightarrow> embedding_text option \<Rightarrow> search_row" where
  "example_row i e =
     \<lparr>row_id = i, row_violation_id = ''image-alt'',
      row_description = ''Images must have alternate text'', row_severity = ''critical'',
      row_embedding = e, row_url = ''http://a.org/'', row_title = ''Home'',
      row_domain = ''a.org''\<rparr>"

definition example_rows :: "search_row list" where
  "example_rows =
     [example_row 1 (Some (ArrayText [0, 1])), example_row 2 (Some (ArrayText [1, 0])),
      example_row 3 (Some (ArrayText [1])), example_row 4 (Some OtherText),
      example_row 5 (Some (ArrayText [3, 4]))]"

definition no_faults :: faults where
  "no_faults = \<lparr>website_fails = False, page_fails = False\<rparr>"

definition page_upsert_fails :: faults where
  "page_upsert_fails = \<lparr>website_fails = False, page_fails = True\<rparr>"

definition website_upsert_fails :: faults where
  "website_upsert_fails = \<lparr>website_fails = True, page_fails = False\<rparr>"

definition stored_violation :: "string \<Rightarrow> enhanced_node violation" where
  "stored_violation rule =
     \<lparr>vid = rule, impact = Some ''serious'', description = ''d'', helpUrl = None, tags = [],
      nodes = [\<lparr>node_html = ''<img>'', node_target = ''img''\<rparr>], severity = Some ''critical'',
      suggestion = None\<rparr>"

definition example_scan :: "string list \<Rightarrow> enhanced_results" where
  "example_scan rules =
     \<lparr>violations = map stored_violation rules,
      scan_metrics = \<lparr>riskScore = Num 100, violationCount = length rules,
                      severityBreakdown = Map.empty\<rparr>,
      scannedAt = ''2024-01-01T00:00:00.000Z''\<rparr>"

text \<open>A store with one website, one page of it and one violation of the page.\<close>

definition example_database :: database where
  "example_database =
     \<lparr>current =
        \<lparr>tbl_websites =
           [\<lparr>website_id = 1, website_domain = ''a.org'', compliance_score = Num 50\<rparr>],
         tbl_pages =
           [\<lparr>page_id = 1, page_website_id = 1, page_url = ''http://a.org/'',
             page_title = ''Home'', page_risk_score = Num 50,
             page_scan_data = example_scan [''old-rule'']\<rparr>],
         tbl_violations =
           [\<lparr>vrow_id = 1, vrow_page_id = 1, vrow_violation_id = ''old-rule'',
             vrow_description = ''d'', vrow_severity = Some ''critical'', vrow_html = ''<img>'',
             vrow_suggestion = [], vrow_embedding = None\<rparr>],
         seq_websites = 1, seq_pages = 1, seq_violations = 1\<rparr>,
      saved = None\<rparr>"

section \<open>Properties of the number model\<close>

lemma rhe_lower: "\<lfloor>x\<rfloor> \<le> round_half_even x"
  by (simp add: round_half_even_def Let_def)

lemma rhe_upper: "round_half_even x \<le> \<lfloor>x\<rfloor> + 1"
  by (simp add: round_half_even_def Let_def)

lemma rhe_mono: assumes "x \<le> y" shows "round_half_even x \<le> round_half_even y"
proof (cases "\<lfloor>x\<rfloor> = \<lfloor>y\<rfloor>")
  case True
  with assms show ?thesis by (auto simp: round_half_even_def Let_def)
next
  case False
  with assms have "\<lfloor>x\<rfloor> < \<lfloor>y\<rfloor>" using floor_mono[OF assms] by linarith
  then have "round_half_even x \<le> \<lfloor>y\<rfloor>" using rhe_upper[of x] by linarith
  then show ?thesis using rhe_lower[of y] by linarith
qed

lemma rhe_of_int [simp]: "round_half_even (of_int n) = n"
  by (simp add: round_half_even_def Let_def)

lemma bitlen_pow_bounds:
  assumes "0 < (p::int)"
  shows "(2::rat) powi (bitlen p - 1) \<le> of_int p" "of_int p < (2::rat) powi (bitlen p)"
proof -
  from bitlen_bounds[OF assms] have a: "2 ^ nat (bitlen p - 1) \<le> p" and b: "p < 2 ^ nat (bitlen p)"
    by auto
  have pos: "0 < bitlen p" using assms bitlen_nonneg[of p] bitlen_eq_zero_iff[of p]
    by linarith
  show "(2::rat) powi (bitlen p - 1) \<le> of_int p"
  proof -
    have "(2::rat) powi (bitlen p - 1) = of_int (2 ^ nat (bitlen p - 1))"
      using pos by (simp add: power_int_def)
    also have "\<dots> \<le> of_int p" using a by (simp only: of_int_le_iff)
    finally show ?thesis .
  qed
  show "of_int p < (2::rat) powi (bitlen p)"
  proof -
    have "(2::rat) powi (bitlen p) = of_int (2 ^ nat (bitlen p))"
      using pos by (simp add: power_int_def)
    moreover have "(of_int p :: rat) < of_int (2 ^ nat (bitlen p))" using b by (simp only: of_int_less_iff)
    ultimately show ?thesis by simp
  qed
qed

lemma binade_bounds:
  assumes "0 < x"
  shows "2 powi (binade x) \<le> x" "x < 2 powi (binade x + 1)"
proof -
  obtain p q where pq: "quotient_of x = (p, q)" by (cases "quotient_of x")
  then have q: "0 < q" and x: "x = of_int p / of_int q"
    using quotient_of_denom_pos quotient_of_div by auto
  with assms have p: "0 < p" by (simp add: zero_less_divide_iff)
  define k where "k = bitlen p - bitlen q"
  have lo: "(2::rat) powi (k - 1) < x"
  proof -
    have "(2::rat) powi (k - 1) = 2 powi (bitlen p - 1) / 2 powi (bitlen q)"
      by (simp add: k_def power_int_diff)
    also have "\<dots> \<le> of_int p / 2 powi (bitlen q)"
      using bitlen_pow_bounds(1)[OF p] by (simp add: divide_right_mono)
    also have "\<dots> < of_int p / of_int q"
      using bitlen_pow_bounds(2)[OF q] p q by (simp add: divide_strict_left_mono)
    finally show ?thesis by (simp add: x)
  qed
  have hi: "x < (2::rat) powi (k + 1)"
  proof -
    have "x < 2 powi (bitlen p) / of_int q"
      unfolding x using bitlen_pow_bounds(2)[OF p] q by (simp add: divide_strict_right_mono)
    also have "\<dots> \<le> 2 powi (bitlen p) / 2 powi (bitlen q - 1)"
      using bitlen_pow_bounds(1)[OF q] q by (simp add: divide_left_mono)
    also have "\<dots> = 2 powi (k + 1)"
      by (simp add: k_def power_int_diff power_int_add)
    finally show ?thesis .
  qed
  have b: "binade x = (if 2 powi k \<le> x then k else k - 1)"
    by (simp add: binade_def pq k_def Let_def)
  show "2 powi (binade x) \<le> x" using lo by (simp add: b)
  show "x < 2 powi (binade x + 1)" using hi by (simp add: b not_le)
qed

lemma binade_mono:
  assumes "0 < x" "x \<le> y"
  shows "binade x \<le> binade y"
proof (rule ccontr)
  assume "\<not> binade x \<le> binade y"
  then have "binade y + 1 \<le> binade x" by simp
  then have "(2::rat) powi (binade y + 1) \<le> 2 powi (binade x)"
    by (intro power_int_increasing) simp_all
  also have "\<dots> \<le> x" using binade_bounds(1)[OF assms(1)] .
  finally have "2 powi (binade y + 1) \<le> y" using assms(2) by simp
  moreover have "y < 2 powi (binade y + 1)" using binade_bounds(2)[of y] assms by simp
  ultimately show False by simp
qed


lemma to_double_pos_eq:
  "0 < x \<Longrightarrow> to_double x = of_int (round_half_even (x / 2 powi (binade x - 52))) * 2 powi (binade x - 52)"
  by (simp add: to_double_def Let_def)

lemma to_double_minus: "to_double (- x) = - to_double x"
  by (simp add: to_double_def Let_def)

lemma to_double_bounds:
  assumes "0 < x"
  shows "2 powi (binade x) \<le> to_double x" "to_double x \<le> 2 powi (binade x + 1)"
proof -
  define u :: rat where "u = 2 powi (binade x - 52)"
  have u: "0 < u" by (simp add: u_def)
  have td: "to_double x = of_int (round_half_even (x / u)) * u"
    using assms by (simp add: to_double_pos_eq u_def)
  have a: "2 powi (binade x) = (2::rat) ^ 52 * u" "2 powi (binade x + 1) = (2::rat) ^ 53 * u"
    by (simp_all add: u_def power_int_diff power_int_add)
  have "(2::rat) ^ 52 \<le> x / u" using binade_bounds(1)[OF assms] u a(1)
    by (simp add: pos_le_divide_eq)
  then have "round_half_even (of_int (2 ^ 52)) \<le> round_half_even (x / u)"
    by (intro rhe_mono) simp
  then have "(of_int (2 ^ 52) :: rat) \<le> of_int (round_half_even (x / u))"
    by (simp only: rhe_of_int of_int_le_iff)
  then show "2 powi (binade x) \<le> to_double x"
    using u by (simp add: td a(1) mult_right_mono)
  have "x / u \<le> (2::rat) ^ 53" using binade_bounds(2)[OF assms] u a(2)
    by (simp add: pos_divide_le_eq)
  then have "round_half_even (x / u) \<le> round_half_even (of_int (2 ^ 53))"
    by (intro rhe_mono) simp
  then have "(of_int (round_half_even (x / u)) :: rat) \<le> of_int (2 ^ 53)"
    by (simp only: rhe_of_int of_int_le_iff)
  then show "to_double x \<le> 2 powi (binade x + 1)"
    using u by (simp add: td a(2) mult_right_mono)
qed

lemma to_double_positive: "0 < x \<Longrightarrow> 0 < to_double x"
proof -
  assume x: "0 < x"
  have "(0::rat) < 2 powi (binade x)" by simp
  then show ?thesis using to_double_bounds(1)[OF x] by linarith
qed

lemma to_double_mono_pos:
  assumes "0 < x" "x \<le> y"
  shows "to_double x \<le> to_double y"
proof -
  have y: "0 < y" using assms by simp
  show ?thesis
  proof (cases "binade x = binade y")
    case True
    define u :: rat where "u = 2 powi (binade y - 52)"
    have u: "0 < u" by (simp add: u_def)
    have "x / u \<le> y / u" using assms u by (simp add: divide_right_mono)
    then have "round_half_even (x / u) \<le> round_half_even (y / u)" by (rule rhe_mono)
    then have "(of_int (round_half_even (x / u)) :: rat) * u \<le> of_int (round_half_even (y / u)) * u"
      using u by (simp add: mult_right_mono)
    then show ?thesis using \<open>0 < x\<close> y True by (simp add: to_double_pos_eq u_def)
  next
    case False
    then have "binade x + 1 \<le> binade y" using binade_mono[OF assms] by simp
    then have "(2::rat) powi (binade x + 1) \<le> 2 powi (binade y)"
      by (intro power_int_increasing) simp_all
    then show ?thesis
      using to_double_bounds(2)[OF \<open>0 < x\<close>] to_double_bounds(1)[OF y] by linarith
  qed
qed

lemma to_double_0 [simp]: "to_double 0 = 0"
  by (simp add: to_double_def)

lemma to_double_negative: "x < 0 \<Longrightarrow> to_double x < 0"
  using to_double_positive[of "- x"] by (simp add: to_double_minus)

lemma to_double_mono:
  assumes "x \<le> y"
  shows "to_double x \<le> to_double y"
proof -
  consider "0 < x" | "x = 0" | "x < 0" "0 \<le> y" | "x < 0" "y < 0" by linarith
  then show ?thesis
  proof cases
    case 1
    then show ?thesis using assms by (rule to_double_mono_pos)
  next
    case 2
    then show ?thesis using assms to_double_positive[of y] by (cases "y = 0") auto
  next
    case 3
    then show ?thesis using to_double_negative[of x] to_double_positive[of y]
      by (cases "y = 0") auto
  next
    case 4
    then have "to_double (- y) \<le> to_double (- x)"
      using assms by (intro to_double_mono_pos) auto
    then show ?thesis by (simp add: to_double_minus)
  qed
qed

lemma to_double_nonneg: "0 \<le> x \<Longrightarrow> 0 \<le> to_double x"
  using to_double_mono[of 0 x] by simp







lemma js_round_mono: "x \<le> y \<Longrightarrow> js_round x \<le> js_round y"
  by (simp add: js_round_def floor_mono)

lemma js_round_of_int: "js_round (of_int n :: rat) = n"
  unfolding js_round_def by (rule floor_unique) simp_all

lemma js_round_nonneg: "0 \<le> x \<Longrightarrow> 0 \<le> js_round x"
  by (simp add: js_round_def)

lemma add_weight_level:
  "severity v = Some (severity_name l) \<Longrightarrow> add_weight (Number t) v = Number (t + of_nat (weight l))"
  by (cases l) (simp_all add: add_weight_def object_get_def SEVERITY_WEIGHTS_def property_key_def
      object_prototype_keys_def)

lemma foldl_add_weight_levels:
  "map severity vs = map (Some \<circ> severity_name) ls \<Longrightarrow>
   foldl add_weight (Number t) vs = Number (t + of_nat (sum_list (map weight ls)))"
proof (induction vs arbitrary: ls t)
  case Nil
  then show ?case by simp
next
  case (Cons v vs)
  then obtain l ls' where ls: "ls = l # ls'" by (cases ls) auto
  with Cons.prems have v: "severity v = Some (severity_name l)"
    and rest: "map severity vs = map (Some \<circ> severity_name) ls'" by auto
  show ?case
    by (simp add: ls add_weight_level[OF v] Cons.IH[OF rest] add.assoc)
qed

lemma rawScore_levels:
  "map severity vs = map (Some \<circ> severity_name) ls \<Longrightarrow>
   rawScore vs = Number (of_nat (sum_list (map weight ls)))"
  by (simp add: rawScore_def foldl_add_weight_levels)

lemma score_levels:
  assumes "map severity vs = map (Some \<circ> severity_name) ls"
  shows "calculateRiskScore vs = Num (of_int (binary64_score ls))"
proof -
  have len: "length vs = length ls" using assms by (metis length_map)
  show ?thesis
  proof (cases "ls = []")
    case True
    with len show ?thesis by (simp add: calculateRiskScore_def maxPossibleScore_def SEVERITY_WEIGHTS_def binary64_score_def)
  next
    case False
    with len have "0 < length vs" by simp
    then show ?thesis using False len
      by (simp add: calculateRiskScore_def maxPossibleScore_def SEVERITY_WEIGHTS_def binary64_score_def
          rawScore_levels[OF assms])
  qed
qed

lemma to_double_1: "to_double 1 = 1"
  by code_simp

lemma to_double_100: "to_double 100 = 100"
  by code_simp

lemma sum_all_critical: "set ls \<subseteq> {Critical} \<Longrightarrow> sum_list (map weight ls) = 10 * length ls"
  by (induction ls) auto

lemma binary64_all_critical:
  assumes "ls \<noteq> []" "set ls \<subseteq> {Critical}"
  shows "binary64_score ls = 100"
proof -
  have "(of_nat (sum_list (map weight ls)) :: rat) / of_nat (length ls * weight Critical) = 1"
    using assms by (simp add: sum_all_critical)
  then have "binary64_score ls = min (js_round (to_double (to_double 1 * 100))) 100"
    using assms(1) by (simp only: binary64_score_def if_False)
  moreover have "js_round (100 :: rat) = 100"
    using js_round_of_int[of 100] by simp
  ultimately show ?thesis
    by (simp add: to_double_1 to_double_100)
qed

lemma binary64_score_nonneg: "0 \<le> binary64_score ls"
proof (cases "ls = []")
  case True
  then show ?thesis by (simp add: binary64_score_def)
next
  case False
  have "(0::rat) \<le> of_nat (sum_list (map weight ls)) / of_nat (length ls * weight Critical)"
    by simp
  then have "0 \<le> to_double
      (of_nat (sum_list (map weight ls)) / of_nat (length ls * weight Critical)) * 100"
    by (simp add: to_double_nonneg)
  then have "0 \<le> js_round (to_double (to_double
      (of_nat (sum_list (map weight ls)) / of_nat (length ls * weight Critical)) * 100))"
    by (intro js_round_nonneg to_double_nonneg)
  then show ?thesis using False by (simp add: binary64_score_def)
qed

lemma binary64_score_snoc:
  assumes "sum_list (map weight ls) \<le> weight l * length ls"
  shows "binary64_score ls \<le> binary64_score (ls @ [l])"
proof (cases "ls = []")
  case True
  then show ?thesis using binary64_score_nonneg[of "[l]"] by (simp add: binary64_score_def)
next
  case False
  define r :: rat where "r = of_nat (sum_list (map weight ls))"
  define n :: rat where "n = of_nat (length ls)"
  define w :: rat where "w = of_nat (weight l)"
  have n: "0 < n" using False by (simp add: n_def)
  have "(of_nat (sum_list (map weight ls)) :: rat) \<le> of_nat (weight l * length ls)"
    using assms by (simp only: of_nat_le_iff)
  then have rw: "r \<le> w * n" by (simp add: r_def w_def n_def)
  have q: "r / (n * 10) \<le> (r + w) / ((n + 1) * 10)"
    using n rw by (simp add: field_simps)
  have a: "binary64_score ls = min (js_round (to_double (to_double (r / (n * 10)) * 100))) 100"
    using False by (simp add: binary64_score_def r_def n_def)
  have b: "binary64_score (ls @ [l]) =
      min (js_round (to_double (to_double ((r + w) / ((n + 1) * 10)) * 100))) 100"
    by (simp add: binary64_score_def r_def n_def w_def add.commute)
  have "to_double (r / (n * 10)) * 100 \<le> to_double ((r + w) / ((n + 1) * 10)) * 100"
    using to_double_mono[OF q] by simp
  then have "js_round (to_double (to_double (r / (n * 10)) * 100))
      \<le> js_round (to_double (to_double ((r + w) / ((n + 1) * 10)) * 100))"
    by (intro js_round_mono to_double_mono)
  then show ?thesis unfolding a b by simp
qed

lemma score_snoc:
  assumes "map severity vs = map (Some \<circ> severity_name) ls"
    and "severity v = Some (severity_name l)"
    and "sum_list (map weight ls) \<le> weight l * length ls"
  shows "js_ge (calculateRiskScore (vs @ [v])) (calculateRiskScore vs)"
proof -
  have "map severity (vs @ [v]) = map (Some \<circ> severity_name) (ls @ [l])"
    using assms(1,2) by simp
  then have "calculateRiskScore (vs @ [v]) = Num (of_int (binary64_score (ls @ [l])))"
    by (rule score_levels)
  moreover have "calculateRiskScore vs = Num (of_int (binary64_score ls))"
    using assms(1) by (rule score_levels)
  ultimately show ?thesis using binary64_score_snoc[OF assms(3)] by simp
qed

lemma severity_violation_with_severity [simp]:
  "severity (violation_with_severity s) = Some s"
  by (simp add: violation_with_severity_def)

lemma add_weight_other:
  assumes "k \<notin> {''critical'', ''high'', ''medium'', ''low''}" and "k \<notin> set object_prototype_keys"
    and "severity v = Some k"
  shows "add_weight (Number t) v = Number (t + 1)"
  using assms by (simp add: add_weight_def object_get_def SEVERITY_WEIGHTS_def property_key_def)

section \<open>Risk scoring: the claims\<close>

text \<open>
  On every list of violations whose severities are among critical, high, medium, low
  and unknown, \<open>calculateRiskScore\<close> is \<open>binary64_score\<close> of the levels: the formula
  with the quotient and the product rounded to binary64.
\<close>

lemma calculateRiskScore_binary64:
  fixes vs :: "'n violation list"
  assumes "map severity vs = map (Some \<circ> severity_name) ls"
  shows "calculateRiskScore vs = Num (of_int (binary64_score ls))"
  using assms by (rule score_levels)

text \<open>
  The particular scores C3 lists hold of the program: 0 for the empty list, 100, 60, 30
  and 10 for a single critical, high, medium and low violation, and 100 for every
  non-empty list of critical violations.
\<close>

lemma calculateRiskScore_empty: "calculateRiskScore ([] :: 'n violation list) = Num 0"
  by (simp add: calculateRiskScore_def maxPossibleScore_def SEVERITY_WEIGHTS_def)

lemma calculateRiskScore_single:
  fixes v :: "'n violation"
  shows "severity v = Some ''critical'' \<Longrightarrow> calculateRiskScore [v] = Num 100"
    and "severity v = Some ''high'' \<Longrightarrow> calculateRiskScore [v] = Num 60"
    and "severity v = Some ''medium'' \<Longrightarrow> calculateRiskScore [v] = Num 30"
    and "severity v = Some ''low'' \<Longrightarrow> calculateRiskScore [v] = Num 10"
proof -
  have single: "calculateRiskScore [v] = Num (of_int (binary64_score [l]))"
    if "severity v = Some (severity_name l)" for l
    using that by (intro score_levels) simp
  have c: "binary64_score [Critical] = 100" by code_simp
  have h: "binary64_score [High] = 60" by code_simp
  have m: "binary64_score [Medium] = 30" by code_simp
  have l: "binary64_score [Low] = 10" by code_simp
  show "calculateRiskScore [v] = Num 100" if "severity v = Some ''critical''"
    using single[of Critical] that by (simp add: c)
  show "calculateRiskScore [v] = Num 60" if "severity v = Some ''high''"
    using single[of High] that by (simp add: h)
  show "calculateRiskScore [v] = Num 30" if "severity v = Some ''medium''"
    using single[of Medium] that by (simp add: m)
  show "calculateRiskScore [v] = Num 10" if "severity v = Some ''low''"
    using single[of Low] that by (simp add: l)
qed

lemma calculateRiskScore_all_critical:
  fixes cs :: "'n violation list"
  assumes "cs \<noteq> []" and "\<forall>c \<in> set cs. severity c = Some ''critical''"
  shows "calculateRiskScore cs = Num 100"
proof -
  have "map severity cs = map (Some \<circ> severity_name) (replicate (length cs) Critical)"
    using assms(2) by (simp add: map_replicate_const[symmetric] list_eq_iff_nth_eq)
  then have "calculateRiskScore cs =
      Num (of_int (binary64_score (replicate (length cs) Critical)))"
    by (rule score_levels)
  moreover have "binary64_score (replicate (length cs) Critical) = 100"
    using assms(1) by (intro binary64_all_critical) auto
  ultimately show ?thesis by simp
qed

text \<open>The formula of C3, in exact arithmetic, gives the same particular scores.\<close>

lemma spec_risk_score_particular:
  "spec_risk_score [] = 0 \<and> spec_risk_score [Critical] = 100 \<and> spec_risk_score [High] = 60
   \<and> spec_risk_score [Medium] = 30 \<and> spec_risk_score [Low] = 10"
  by code_simp

lemma spec_risk_score_all_critical:
  assumes "ls \<noteq> []" and "set ls \<subseteq> {Critical}"
  shows "spec_risk_score ls = 100"
proof -
  have n: "(of_nat (length ls) :: rat) \<noteq> 0" using assms(1) by simp
  have "sum_list (map weight ls) = 10 * length ls" using assms(2) by (rule sum_all_critical)
  then have "(of_nat (sum_list (map weight ls)) :: rat) / of_nat (length ls * weight Critical) = 1"
    using n by simp
  then have "spec_risk_score ls = min (js_round (1 * 100)) 100"
    using assms(1) unfolding spec_risk_score_def by (simp only: if_False)
  then show ?thesis using js_round_of_int[of 100] by simp
qed

text \<open>
  C3 fails on the program where the exact score lies halfway between two integers.
  For the severities critical, high, high and low the weights sum to 23 and the
  reference definition gives min(round(23 / 40 * 100), 100) = round(57.5) = 58. The
  program rounds the quotient 23 / 40 to binary64 before it multiplies by 100, the
  product is 57.49999999999999, and \<open>Math.round\<close> gives 57.
\<close>

theorem calculateRiskScore_halfway:
  "calculateRiskScore [violation_with_severity ''critical'', violation_with_severity ''high'',
     violation_with_severity ''high'', violation_with_severity ''low''] = Num 57
   \<and> spec_risk_score [Critical, High, High, Low] = 58"
  by code_simp

text \<open>
  C2, as stated, fails: the score is the rounded mean weight, and a violation lighter
  than the mean lowers it. One critical violation scores 100; with a low one added the
  score is 55.
\<close>

theorem calculateRiskScore_not_monotone:
  "\<not> js_ge (calculateRiskScore ([violation_with_severity ''critical'']
                 @ [violation_with_severity ''low'']))
             (calculateRiskScore [violation_with_severity ''critical''])"
  by code_simp

text \<open>
  C2, amended: adding a violation does not lower the score when its weight is at least
  the mean weight of the violations already there (their weights sum to at most its
  weight times their count), for severities among critical, high, medium, low and
  unknown. In particular adding a critical violation never lowers the score.
\<close>

theorem calculateRiskScore_monotone_above_mean:
  assumes "map severity vs = map (Some \<circ> severity_name) ls"
    and "severity v = Some (severity_name l)"
    and "sum_list (map weight ls) \<le> weight l * length ls"
  shows "js_ge (calculateRiskScore (vs @ [v])) (calculateRiskScore vs)"
  using assms by (rule score_snoc)

theorem calculateRiskScore_monotone_above_mean_witness:
  "sum_list (map weight [Low, High]) \<le> weight Critical * length [Low, High]
   \<and> js_ge (calculateRiskScore ([violation_with_severity ''low'', violation_with_severity ''high'']
               @ [violation_with_severity ''critical'']))
            (calculateRiskScore [violation_with_severity ''low'', violation_with_severity ''high''])"
  using calculateRiskScore_monotone_above_mean
    [of "[violation_with_severity ''low'', violation_with_severity ''high'']" "[Low, High]"
        "violation_with_severity ''critical''" Critical]
  by simp

text \<open>
  C10 fails on the program for the severities that name a property every object
  inherits: \<open>SEVERITY_WEIGHTS["constructor"]\<close> is a function, not \<open>undefined\<close>, so the
  default weight 1 is not taken, the sum becomes a string and the score is \<open>NaN\<close>.
\<close>

theorem calculateRiskScore_inherited_key:
  "calculateRiskScore [violation_with_severity ''constructor''] = NaN"
  by code_simp

section \<open>Scan orchestrator: the claims\<close>

lemma severity_of_table:
  "severity_of imp =
     (if imp = Some ''serious'' \<or> imp = Some ''critical'' then ''critical''
      else if imp = Some ''moderate'' then ''high''
      else if imp = Some ''minor'' then ''medium''
      else if imp = Some ''cosmetic'' then ''low''
      else ''unknown'')"
  by (cases imp) (auto simp: severity_of_def SEVERITY_MAPPING_def)

lemma concat_batches: "concat (batches xs) = xs"
proof (induction xs rule: batches.induct)
  case (1 xs)
  show ?case
  proof (cases "xs = []")
    case True
    then show ?thesis by (subst batches.simps) simp
  next
    case False
    then show ?thesis using 1 by (subst batches.simps) simp
  qed
qed

lemma enhance_one_severity:
  "enhance_one env cache vr = Inr (v', w) \<Longrightarrow> severity v' = Some (severity_of (impact (fst vr)))"
  by (auto simp: enhance_one_def with_severity_def Let_def split: sum.splits prod.splits)

lemma collect_Inr:
  "collect rs = Inr xs \<Longrightarrow> rs = map Inr xs"
proof (induction rs arbitrary: xs)
  case Nil
  then show ?case by simp
next
  case (Cons r rs)
  then show ?case by (cases r) (auto split: sum.splits)
qed

lemma enhance_batch_severity:
  assumes "enhance_batch env cache batch = (Inr vs, c)"
  shows "map severity vs = map (\<lambda>vr. Some (severity_of (impact (fst vr)))) batch"
proof -
  from assms obtain rs where rs: "collect (map (enhance_one env cache) batch) = Inr rs"
    and vs: "vs = map fst rs"
    by (auto simp: enhance_batch_def Let_def split: sum.splits)
  from collect_Inr[OF rs] have eq: "map (enhance_one env cache) batch = map Inr rs" .
  then have len: "length batch = length rs" by (metis length_map)
  show ?thesis unfolding vs
  proof (rule nth_equalityI)
    show "length (map severity (map fst rs)) = length (map (\<lambda>vr. Some (severity_of (impact (fst vr)))) batch)"
      using len by simp
  next
    fix i assume "i < length (map severity (map fst rs))"
    then have i: "i < length rs" by simp
    then have "enhance_one env cache (batch ! i) = Inr (rs ! i)"
      using eq len by (metis nth_map)
    then have "severity (fst (rs ! i)) = Some (severity_of (impact (fst (batch ! i))))"
      using enhance_one_severity[of env cache "batch ! i" "fst (rs ! i)" "snd (rs ! i)"] by simp
    then show "map severity (map fst rs) ! i = map (\<lambda>vr. Some (severity_of (impact (fst vr)))) batch ! i"
      using i len by simp
  qed
qed

lemma enhance_batches_severity:
  "enhance_batches env cache bs = (Inr vs, c) \<Longrightarrow>
   map severity vs = map (\<lambda>vr. Some (severity_of (impact (fst vr)))) (concat bs)"
proof (induction bs arbitrary: cache vs c)
  case Nil
  then show ?case by simp
next
  case (Cons b bs)
  obtain r1 c1 where b1: "enhance_batch env cache b = (r1, c1)"
    by (cases "enhance_batch env cache b")
  obtain r2 c2 where b2: "enhance_batches env c1 bs = (r2, c2)"
    by (cases "enhance_batches env c1 bs")
  from Cons.prems b1 obtain us where r1: "r1 = Inr us"
    by (cases r1) auto
  from Cons.prems b1 b2 r1 obtain ws where r2: "r2 = Inr ws" and vs: "vs = us @ ws"
    by (cases r2) auto
  have "map severity us = map (\<lambda>vr. Some (severity_of (impact (fst vr)))) b"
    using enhance_batch_severity b1 r1 by blast
  moreover have "map severity ws = map (\<lambda>vr. Some (severity_of (impact (fst vr)))) (concat bs)"
    using Cons.IH b2 r2 by blast
  ultimately show ?case by (simp add: vs)
qed

lemma enhanceResults_severities:
  assumes "fst (enhanceResults env cache replies vs) = Inr res"
  shows "map severity (violations res) = map (\<lambda>v. Some (severity_of (impact v))) vs"
proof -
  from assms obtain ws c where
    eb: "enhance_batches env cache (batches (zip vs (map replies [0..<length vs]))) = (Inr ws, c)"
    and res: "violations res = ws"
    by (auto simp: enhanceResults_def split: prod.splits sum.splits)
  have fz: "map fst (zip vs (map replies [0..<length vs])) = vs"
    by (simp add: map_fst_zip)
  from enhance_batches_severity[OF eb]
  have "map severity ws =
      map (\<lambda>vr. Some (severity_of (impact (fst vr)))) (zip vs (map replies [0..<length vs]))"
    by (simp add: concat_batches)
  also have "\<dots> = map (\<lambda>v. Some (severity_of (impact v)))
      (map fst (zip vs (map replies [0..<length vs])))"
    by (simp only: map_map comp_def)
  also have "\<dots> = map (\<lambda>v. Some (severity_of (impact v))) vs"
    by (simp only: fz)
  finally show ?thesis by (simp add: res)
qed

text \<open>
  C7. \<open>enhanceResults\<close> maps impact to severity by the fixed table: serious and critical
  to critical, moderate to high, minor to medium, cosmetic to low, anything else (a
  missing impact too) to unknown; so serious always gives critical. Every violation of
  a result of \<open>enhanceResults\<close> carries the severity the table gives for its impact.
\<close>

theorem enhanceResults_severity_mapping:
  "severity_of imp =
     (if imp = Some ''serious'' \<or> imp = Some ''critical'' then ''critical''
      else if imp = Some ''moderate'' then ''high''
      else if imp = Some ''minor'' then ''medium''
      else if imp = Some ''cosmetic'' then ''low''
      else ''unknown'')
   \<and> severity_of (Some ''serious'') = ''critical''
   \<and> (fst (enhanceResults env cache replies vs) = Inr res \<longrightarrow>
        map severity (violations res) = map (\<lambda>v. Some (severity_of (impact v))) vs)"
  using severity_of_table[of imp] severity_of_table[of "Some ''serious''"]
    enhanceResults_severities[of env cache replies vs res]
  by simp

theorem enhanceResults_severity_mapping_witness:
  "\<not> isl (fst (enhanceResults example_environment Map.empty provider_down [example_violation]))
   \<and> map severity (violations (projr (fst
         (enhanceResults example_environment Map.empty provider_down [example_violation]))))
       = [Some ''critical'']"
proof -
  have ok: "\<not> isl (fst (enhanceResults example_environment Map.empty provider_down
      [example_violation]))"
    by code_simp
  then have "fst (enhanceResults example_environment Map.empty provider_down [example_violation])
      = Inr (projr (fst (enhanceResults example_environment Map.empty provider_down
          [example_violation])))"
    by simp
  with enhanceResults_severity_mapping
    [of "Some ''serious''" example_environment Map.empty provider_down "[example_violation]"
        "projr (fst (enhanceResults example_environment Map.empty provider_down
           [example_violation]))"]
  have "map severity (violations (projr (fst
         (enhanceResults example_environment Map.empty provider_down [example_violation]))))
       = [Some (severity_of (impact example_violation))]"
    by simp
  moreover have "impact example_violation = Some ''serious''"
    by (simp add: example_violation_def)
  ultimately show ?thesis using ok severity_of_table[of "Some ''serious''"] by simp
qed

lemma generateFixSuggestions_returns:
  assumes "nodes v \<noteq> []"
  shows "\<exists>payload c. generateFixSuggestions env cache v reply = (Inr payload, c)"
  using assms
  by (cases "nodes v")
    (auto simp: generateFixSuggestions_def suggestion_for_def cacheKey_def Let_def
      split: option.splits sum.splits)

lemma generateFixSuggestions_provider_failure:
  assumes "cacheKey v = Inr key" and "cache key = None"
    and "object_get VIOLATION_TEMPLATES (vid v) \<noteq> Inherited"
  shows "generateFixSuggestions env cache v (Rejected code) =
    (Inr (ErrorPayload (vid v)
       (''AI Service Unavailable: '' @
          (case code of None \<Rightarrow> ''Timeout'' | Some c \<Rightarrow> if c = [] then ''Timeout'' else c))
       (helpUrl v) False), cache)"
  using assms
  by (simp add: generateFixSuggestions_def suggestion_for_def try_completion_def cache_set_def
      split: property.splits)

text \<open>
  C9 fails on the program for a violation without nodes: the cache key is computed
  before the \<open>try\<close>, and \<open>violation.nodes[0].html\<close> on an empty node list raises a
  \<open>TypeError\<close> that leaves \<open>generateFixSuggestions\<close>, whatever the provider does; in
  \<open>enhanceResults\<close> the error fails the batch and with it the scan of the page.
\<close>

theorem generateFixSuggestions_throws_without_nodes:
  "fst (generateFixSuggestions env cache (with_severity (example_violation\<lparr>nodes := []\<rparr>)) reply)
     = Inl TypeError
   \<and> fst (enhanceResults env cache replies [example_violation\<lparr>nodes := []\<rparr>]) = Inl TypeError"
  by (simp add: generateFixSuggestions_def suggestion_for_def cacheKey_def with_severity_def
      enhanceResults_def enhance_batch_def enhance_one_def batches.simps BATCH_SIZE_def)

section \<open>Crawler: the claims\<close>

lemma crawl_step_inv:
  assumes "crawl_inv visited0 s"
  shows "crawl_inv visited0 (crawl_step fetch hostname domain maxDepth s)"
proof (cases "queue s")
  case Nil
  then show ?thesis using assms by (simp add: crawl_step_def)
next
  case (Cons a rest)
  obtain url depth where a: "a = (url, depth)" by (cases a)
  show ?thesis
  proof (cases "depth > maxDepth \<or> url \<in> visited s")
    case True
    then show ?thesis using assms Cons a by (auto simp: crawl_step_def crawl_inv_def)
  next
    case False
    then have nv: "url \<notin> visited s" by simp
    with assms have nf: "url \<notin> set (fetched s)" "url \<notin> visited0" "url \<notin> set (map fst (pages s))"
      by (auto simp: crawl_inv_def)
    show ?thesis
    proof (cases "fetch url")
      case FetchError
      then show ?thesis using assms Cons a False nf
        by (auto simp: crawl_step_def crawl_inv_def Let_def)
    next
      case (Page title hrefs)
      then show ?thesis using assms Cons a False nf
        by (auto simp: crawl_step_def crawl_inv_def Let_def)
    qed
  qed
qed

lemma crawl_loop_inv:
  "crawl_inv visited0 s \<Longrightarrow> crawl_inv visited0 (crawl_loop fetch hostname domain maxDepth s)"
proof (induction fetch hostname domain maxDepth s rule: crawl_loop.induct)
  case (1 fetch hostname domain maxDepth s)
  show ?case
  proof (cases "queue s = []")
    case True
    then show ?thesis using "1.prems" by (subst crawl_loop.simps) simp
  next
    case False
    then show ?thesis
      using "1.IH"[OF False crawl_step_inv[OF "1.prems"]]
      by (subst crawl_loop.simps) simp
  qed
qed

lemma crawl_loop_queue_empty:
  "queue (crawl_loop fetch hostname domain maxDepth s) = []"
proof (induction fetch hostname domain maxDepth s rule: crawl_loop.induct)
  case (1 fetch hostname domain maxDepth s)
  show ?case
  proof (cases "queue s = []")
    case True
    then show ?thesis by (subst crawl_loop.simps) simp
  next
    case False
    then show ?thesis using "1.IH"[OF False] by (subst crawl_loop.simps) simp
  qed
qed

lemma crawl_loop_all_too_deep:
  "\<forall>(url, depth) \<in> set (queue s). depth > maxDepth \<Longrightarrow>
   crawl_loop fetch hostname domain maxDepth s = s\<lparr>queue := []\<rparr>"
proof (induction "queue s" arbitrary: s)
  case Nil
  then show ?case by (subst crawl_loop.simps) simp
next
  case (Cons a rest)
  obtain url depth where a: "a = (url, depth)" by (cases a)
  have q: "queue s = (url, depth) # rest" using Cons.hyps(2) a by simp
  have deep: "depth > maxDepth" using Cons.prems q by auto
  have step: "crawl_step fetch hostname domain maxDepth s = s\<lparr>queue := rest\<rparr>"
    using q deep by (simp add: crawl_step_def)
  have "crawl_loop fetch hostname domain maxDepth (s\<lparr>queue := rest\<rparr>) = (s\<lparr>queue := rest\<rparr>)\<lparr>queue := []\<rparr>"
    using Cons.hyps(1)[of "s\<lparr>queue := rest\<rparr>"] Cons.prems q by auto
  then show ?case using q step by (subst crawl_loop.simps) simp
qed

text \<open>
  C5, amended: a crawl with \<open>maxDepth = 0\<close> by a crawler that has visited nothing
  opens exactly the start URL and records exactly it when it opens (nothing when
  opening it fails). The same-host links found on it are put on the queue, each with
  depth 1: after the first turn of the loop the queue holds exactly these links, in
  the order of the page, and nothing when opening the start URL fails. The loop then
  takes each of them off and skips it, without opening it, recording it or marking it
  visited, and the run ends with an empty queue.
\<close>

theorem crawl_depth_0:
  assumes "hostname baseUrl = Some domain"
  shows "\<exists>s. crawl fetch hostname {} baseUrl 0 = Inr s
     \<and> fetched s = [baseUrl] \<and> visited s = {baseUrl} \<and> queue s = []
     \<and> pages s = (case fetch baseUrl of FetchError \<Rightarrow> [] | Page title hrefs \<Rightarrow> [(baseUrl, title)])
     \<and> (\<forall>(url, depth) \<in> set (queue (crawl_step fetch hostname domain 0 (initial_state {} baseUrl))).
           depth = 1)
     \<and> queue (crawl_step fetch hostname domain 0 (initial_state {} baseUrl))
         = (case fetch baseUrl of
              FetchError \<Rightarrow> []
            | Page title hrefs \<Rightarrow> map (\<lambda>link. (link, 1)) (internal_links hostname domain hrefs))"
proof -
  define s0 where "s0 = initial_state {} baseUrl"
  define s1 where "s1 = crawl_step fetch hostname domain 0 s0"
  have q0: "queue s0 \<noteq> []" by (simp add: s0_def initial_state_def)
  have deep: "\<forall>(url, depth) \<in> set (queue s1). depth = 1"
    by (cases "fetch baseUrl")
      (auto simp: s1_def s0_def initial_state_def crawl_step_def Let_def)
  then have deep': "\<forall>(url, depth) \<in> set (queue s1). depth > 0" by auto
  have "crawl_loop fetch hostname domain 0 s0 = crawl_loop fetch hostname domain 0 s1"
    using q0 by (subst crawl_loop.simps) (simp add: s1_def)
  also have "\<dots> = s1\<lparr>queue := []\<rparr>"
    using deep' by (rule crawl_loop_all_too_deep)
  finally have run: "crawl fetch hostname {} baseUrl 0 = Inr (s1\<lparr>queue := []\<rparr>)"
    using assms by (simp add: crawl_def s0_def)
  have "fetched s1 = [baseUrl]" "visited s1 = {baseUrl}"
    "pages s1 = (case fetch baseUrl of FetchError \<Rightarrow> [] | Page title hrefs \<Rightarrow> [(baseUrl, title)])"
    by (cases "fetch baseUrl"; simp add: s1_def s0_def initial_state_def crawl_step_def Let_def)+
  moreover have "queue s1 = (case fetch baseUrl of
              FetchError \<Rightarrow> []
            | Page title hrefs \<Rightarrow> map (\<lambda>link. (link, 1)) (internal_links hostname domain hrefs))"
    by (cases "fetch baseUrl"; simp add: s1_def s0_def initial_state_def crawl_step_def Let_def)
  ultimately show ?thesis using run deep by (simp add: s1_def s0_def)
qed

theorem crawl_depth_0_witness:
  "example_hostname ''http://a.org/'' = Some ''a.org''
   \<and> (\<exists>s. crawl example_site example_hostname {} ''http://a.org/'' 0 = Inr s
     \<and> fetched s = [''http://a.org/''] \<and> pages s = [(''http://a.org/'', ''Home'')])"
  using crawl_depth_0[of example_hostname "''http://a.org/''" "''a.org''" example_site]
  by (auto simp: example_hostname_def example_site_def)

text \<open>
  C5, as stated, fails in its second half: with \<open>maxDepth = 0\<close> the first turn of the
  loop does put the start page's same-host links on the queue (the depth is checked
  when a URL is taken off the queue, not when it is put on).
\<close>

theorem crawl_depth_0_enqueues_links:
  "queue (crawl_step example_site example_hostname ''a.org'' 0 (initial_state {} ''http://a.org/''))
   = [(''http://a.org/x'', 1), (''http://a.org/y'', 1)]"
  by code_simp

text \<open>
  C6. In a run of \<open>crawl\<close> no URL is opened twice and no URL is recorded twice,
  whatever the links are: the URLs opened are pairwise distinct, the pages recorded are
  pairwise distinct and among the URLs opened, and every URL opened is in the visited
  set and was not in it when the run started. A URL taken off the queue that is in the
  visited set is skipped: the turn only removes it from the queue. A URL that is not
  skipped is in the visited set after the turn, whether opening it succeeds or not.
\<close>

theorem crawl_never_repeats:
  "(crawl fetch hostname visited0 baseUrl maxDepth = Inr s \<longrightarrow>
      distinct (fetched s) \<and> distinct (map fst (pages s))
      \<and> set (map fst (pages s)) \<subseteq> set (fetched s)
      \<and> set (fetched s) \<subseteq> visited s \<and> set (fetched s) \<inter> visited0 = {})
   \<and> (queue s1 = (url1, depth1) # rest1 \<and> url1 \<in> visited s1 \<longrightarrow>
        crawl_step fetch hostname domain maxDepth s1 = s1\<lparr>queue := rest1\<rparr>)
   \<and> (queue s2 = (url2, depth2) # rest2 \<and> url2 \<notin> visited s2 \<and> depth2 \<le> maxDepth \<longrightarrow>
        url2 \<in> visited (crawl_step fetch hostname domain maxDepth s2)
        \<and> fetched (crawl_step fetch hostname domain maxDepth s2) = fetched s2 @ [url2])"
proof (intro conjI impI)
  assume run: "crawl fetch hostname visited0 baseUrl maxDepth = Inr s"
  then obtain d where s: "s = crawl_loop fetch hostname d maxDepth (initial_state visited0 baseUrl)"
    by (auto simp: crawl_def split: option.splits)
  have "crawl_inv visited0 (initial_state visited0 baseUrl)"
    by (simp add: crawl_inv_def initial_state_def)
  then have inv: "crawl_inv visited0 s" unfolding s by (rule crawl_loop_inv)
  show "distinct (fetched s)" "distinct (map fst (pages s))"
    "set (map fst (pages s)) \<subseteq> set (fetched s)" "set (fetched s) \<subseteq> visited s"
    "set (fetched s) \<inter> visited0 = {}"
    using inv by (simp_all add: crawl_inv_def)
next
  assume "queue s1 = (url1, depth1) # rest1 \<and> url1 \<in> visited s1"
  then show "crawl_step fetch hostname domain maxDepth s1 = s1\<lparr>queue := rest1\<rparr>"
    by (simp add: crawl_step_def)
next
  assume a: "queue s2 = (url2, depth2) # rest2 \<and> url2 \<notin> visited s2 \<and> depth2 \<le> maxDepth"
  then show "url2 \<in> visited (crawl_step fetch hostname domain maxDepth s2)"
    by (cases "fetch url2") (simp_all add: crawl_step_def Let_def)
  from a show "fetched (crawl_step fetch hostname domain maxDepth s2) = fetched s2 @ [url2]"
    by (cases "fetch url2") (simp_all add: crawl_step_def Let_def)
qed

theorem crawl_never_repeats_witness:
  "\<not> isl (crawl example_site example_hostname {} ''http://a.org/'' 2)
   \<and> distinct (fetched (projr (crawl example_site example_hostname {} ''http://a.org/'' 2)))
   \<and> distinct (map fst (pages (projr (crawl example_site example_hostname {} ''http://a.org/'' 2))))
   \<and> map fst (pages (projr (crawl example_site example_hostname {} ''http://a.org/'' 2)))
       = [''http://a.org/'', ''http://a.org/x'', ''http://a.org/y'']
   \<and> crawl_step example_site example_hostname ''a.org'' 2 revisiting_state
       = revisiting_state\<lparr>queue := [(''http://a.org/y'', 1)]\<rparr>
   \<and> ''http://a.org/'' \<in> visited (crawl_step example_site example_hostname ''a.org'' 2
        (initial_state {} ''http://a.org/''))"
proof -
  have ok: "\<not> isl (crawl example_site example_hostname {} ''http://a.org/'' 2)"
    by code_simp
  then have run: "crawl example_site example_hostname {} ''http://a.org/'' 2
      = Inr (projr (crawl example_site example_hostname {} ''http://a.org/'' 2))"
    by simp
  have p: "map fst (pages (projr (crawl example_site example_hostname {} ''http://a.org/'' 2)))
       = [''http://a.org/'', ''http://a.org/x'', ''http://a.org/y'']"
    by code_simp
  have q1: "queue revisiting_state = (''http://a.org/'', 1) # [(''http://a.org/y'', 1)]
      \<and> ''http://a.org/'' \<in> visited revisiting_state"
    by (simp add: revisiting_state_def)
  have q2: "queue (initial_state {} ''http://a.org/'') = (''http://a.org/'', 0) # []
      \<and> ''http://a.org/'' \<notin> visited (initial_state {} ''http://a.org/'') \<and> (0::nat) \<le> 2"
    by (simp add: initial_state_def)
  show ?thesis
    using crawl_never_repeats
      [of example_site example_hostname "{}" "''http://a.org/''" 2
          "projr (crawl example_site example_hostname {} ''http://a.org/'' 2)"
          revisiting_state "''http://a.org/''" 1 "[(''http://a.org/y'', 1)]" "''a.org''"
          "initial_state {} ''http://a.org/''" "''http://a.org/''" 0 "[]"]
      ok run p q1 q2
    by simp
qed

section \<open>Embedding codec and semantic search: the claims\<close>



lemma magnitude_nonneg: "0 \<le> m \<Longrightarrow> 0 \<le> magnitude m a"
proof (induction a arbitrary: m)
  case Nil
  then show ?case by (simp add: magnitude_def)
next
  case (Cons x a)
  have "0 \<le> to_double (x * x)" by (intro to_double_nonneg) simp
  then have "0 \<le> to_double (m + to_double (x * x))" using Cons.prems by (intro to_double_nonneg) simp
  then have "0 \<le> magnitude (to_double (m + to_double (x * x))) a" by (rule Cons.IH)
  then show ?case by (simp add: magnitude_def)
qed



















lemma similarity_of_Some:
  assumes "similarity_of q v = Some (row, sim)"
  shows "row = v \<and> (\<exists>vec. row_embedding v = Some (ArrayText vec) \<and> length vec = length q
     \<and> cosineSimilarity (Array q) (Array vec) = Inr sim)"
  using assms
  by (auto simp: similarity_of_def split: option.splits embedding_text.splits if_splits sum.splits)

text \<open>
  C4. For every query and limit, \<open>semanticSearch\<close> returns at most \<open>limit\<close> results, in
  descending order of similarity; each result is a row the database returned, its
  similarity is above 0.3, and its embedding text is an array of as many numbers as
  the query embedding has, the similarity being the cosine similarity of the two. When
  the embedding of the query fails (the provider fails, or gives nothing or an empty
  array) or the database query fails, the result is the empty list.
\<close>

theorem semanticSearch_ranked:
  "length (semanticSearch e d limit) \<le> limit
   \<and> sorted_wrt (\<lambda>a b. snd b \<le> snd a) (semanticSearch e d limit)
   \<and> (\<forall>(row, sim) \<in> set (semanticSearch e d limit).
        3 / 10 < sim
        \<and> (\<exists>q vec rows. generateEmbedding e = Some q \<and> d = Rows rows \<and> row \<in> set rows
              \<and> row_embedding row = Some (ArrayText vec) \<and> length vec = length q
              \<and> cosineSimilarity (Array q) (Array vec) = Inr sim))
   \<and> (e = EmbedError \<or> e = Embedded None \<or> e = Embedded (Some []) \<or> d = DbError \<longrightarrow>
        semanticSearch e d limit = [])"
proof (intro conjI)
  show "length (semanticSearch e d limit) \<le> limit"
    by (simp add: semanticSearch_def split: option.splits db_result.splits)
  have sorted_take: "sorted_wrt (\<lambda>a b. snd b \<le> snd a) (take limit (sort_key (\<lambda>r. - snd r) xs))"
    for xs :: "(search_row \<times> rat) list"
  proof -
    have "sorted (map (\<lambda>r. - snd r) (sort_key (\<lambda>r. - snd r) xs))" by (rule sorted_sort_key)
    then have "sorted_wrt (\<lambda>a b. snd b \<le> snd a) (sort_key (\<lambda>r. - snd r) xs)"
      by (simp add: sorted_map)
    then show ?thesis by (rule sorted_wrt_take)
  qed
  show "sorted_wrt (\<lambda>a b. snd b \<le> snd a) (semanticSearch e d limit)"
    by (simp add: semanticSearch_def sorted_take split: option.splits db_result.splits)
  show "\<forall>(row, sim) \<in> set (semanticSearch e d limit).
        3 / 10 < sim
        \<and> (\<exists>q vec rows. generateEmbedding e = Some q \<and> d = Rows rows \<and> row \<in> set rows
              \<and> row_embedding row = Some (ArrayText vec) \<and> length vec = length q
              \<and> cosineSimilarity (Array q) (Array vec) = Inr sim)"
  proof (clarify)
    fix row sim assume mem: "(row, sim) \<in> set (semanticSearch e d limit)"
    obtain q where q: "generateEmbedding e = Some q"
      using mem by (cases "generateEmbedding e") (auto simp: semanticSearch_def)
    obtain rows where d: "d = Rows rows"
      using mem q by (cases d) (auto simp: semanticSearch_def split: if_splits)
    have mem': "(row, sim) \<in> set (take limit (sort_key (\<lambda>r. - snd r)
           (filter (\<lambda>r. snd r > 3 / 10) (List.map_filter (similarity_of q) rows))))"
      using mem q d by (cases "q = []") (simp_all add: semanticSearch_def)
    from mem' have "(row, sim) \<in> set (filter (\<lambda>r. snd r > 3 / 10) (List.map_filter (similarity_of q) rows))"
      using set_take_subset by fastforce
    then have gt: "3 / 10 < sim" and "(row, sim) \<in> set (List.map_filter (similarity_of q) rows)"
      by auto
    then obtain v where v: "v \<in> set rows" "similarity_of q v = Some (row, sim)"
      by (auto simp: List.map_filter_def)
    from similarity_of_Some[OF v(2)] v(1) gt q d
    show "3 / 10 < sim
        \<and> (\<exists>q vec rows. generateEmbedding e = Some q \<and> d = Rows rows \<and> row \<in> set rows
              \<and> row_embedding row = Some (ArrayText vec) \<and> length vec = length q
              \<and> cosineSimilarity (Array q) (Array vec) = Inr sim)"
      by auto
  qed
  show "e = EmbedError \<or> e = Embedded None \<or> e = Embedded (Some []) \<or> d = DbError \<longrightarrow>
        semanticSearch e d limit = []"
    by (auto simp: semanticSearch_def generateEmbedding_def split: option.splits)
qed

theorem semanticSearch_ranked_witness:
  "semanticSearch (Embedded (Some [0, 1])) (Rows example_rows) 5
     = [(example_row 1 (Some (ArrayText [0, 1])), 1),
        (example_row 5 (Some (ArrayText [3, 4])), 3602879701896397 / 4503599627370496)]
   \<and> length (semanticSearch (Embedded (Some [0, 1])) (Rows example_rows) 5) \<le> 5
   \<and> sorted_wrt (\<lambda>a b. snd b \<le> snd a)
         (semanticSearch (Embedded (Some [0, 1])) (Rows example_rows) 5)
   \<and> semanticSearch EmbedError (Rows example_rows) 5 = []"
proof -
  have "semanticSearch (Embedded (Some [0, 1])) (Rows example_rows) 5
     = [(example_row 1 (Some (ArrayText [0, 1])), 1),
        (example_row 5 (Some (ArrayText [3, 4])), 3602879701896397 / 4503599627370496)]"
    by code_simp
  then show ?thesis
    using semanticSearch_ranked[of "Embedded (Some [0, 1])" "Rows example_rows" 5]
      semanticSearch_ranked[of EmbedError "Rows example_rows" 5]
    by simp
qed

section \<open>Persistence: the claims\<close>

lemma rollback_restores:
  assumes "saved db = None" and "saved db' = Some (current db)"
  shows "rollback db' = db"
  using assms by (cases db) (simp add: rollback_def)

lemma saved_begin: "saved db = None \<Longrightarrow> saved (begin_transaction db) = Some (current db)"
  by (simp add: begin_transaction_def)

lemma current_begin: "current (begin_transaction db) = current db"
  by (simp add: begin_transaction_def split: option.splits)

lemma saved_on_current [simp]: "saved (on_current g db) = saved db"
  by (simp add: on_current_def)

lemma current_on_current [simp]: "current (on_current g db) = g (current db)"
  by (simp add: on_current_def)

lemma find_after_replace_website:
  "\<exists>w. find (\<lambda>w. website_domain w = domain) (tbl_websites (replace_website domain score t)) = Some w"
proof -
  have "\<exists>x \<in> set (tbl_websites (replace_website domain score t)). website_domain x = domain"
    by (simp add: replace_website_def Let_def)
  then show ?thesis by (cases "find (\<lambda>w. website_domain w = domain)
      (tbl_websites (replace_website domain score t))") (auto simp: find_None_iff)
qed

lemma replace_page_Some:
  "\<exists>t' pid. replace_page domain url title risk scanData (replace_website domain score t) = Some (t', pid)"
  using find_after_replace_website[of domain score t]
  by (auto simp: replace_page_def Let_def)

lemma storePageResults_website_failure:
  assumes "saved db = None" and "website_fails f"
  shows "storePageResults f db domain url title scanData = (Rejects StatementFailed, db)"
proof -
  have "rollback (begin_transaction db) = db"
    using assms(1) by (intro rollback_restores) (simp_all add: saved_begin)
  then show ?thesis using assms(2) by (simp add: storePageResults_def Let_def)
qed

text \<open>
  When the website upsert succeeds the promise is never settled, and the transaction
  is left open: no \<open>ROLLBACK\<close> and no \<open>COMMIT\<close> is issued, and the violations the scan
  found are never inserted.
\<close>

lemma storePageResults_never_settles:
  assumes "saved db = None" and "\<not> website_fails f"
  shows "fst (storePageResults f db domain url title scanData) = NeverSettles
    \<and> saved (snd (storePageResults f db domain url title scanData)) = Some (current db)
    \<and> set (tbl_violations (current (snd (storePageResults f db domain url title scanData))))
        \<subseteq> set (tbl_violations (current db))"
proof -
  define score where
    "score = (case riskScore (scan_metrics scanData) of Num r \<Rightarrow> Num (100 - r) | NaN \<Rightarrow> NaN)"
  define db2 where "db2 = on_current (replace_website domain score) (begin_transaction db)"
  have s2: "saved db2 = Some (current db)" using assms(1) by (simp add: db2_def saved_begin)
  have v2: "set (tbl_violations (current db2)) \<subseteq> set (tbl_violations (current db))"
    by (auto simp: db2_def current_begin replace_website_def delete_websites_def
        delete_pages_def Let_def)
  show ?thesis
  proof (cases "page_fails f")
    case True
    then have r: "storePageResults f db domain url title scanData = (NeverSettles, db2)"
      using assms(2) by (simp add: storePageResults_def Let_def db2_def score_def)
    show ?thesis unfolding r using s2 v2 by simp
  next
    case False
    obtain t3 pageId where rp:
      "replace_page domain url title (riskScore (scan_metrics scanData)) scanData (current db2)
         = Some (t3, pageId)"
      using replace_page_Some[of domain url title "riskScore (scan_metrics scanData)" scanData
          score "current (begin_transaction db)"]
      by (auto simp: db2_def)
    then have r: "storePageResults f db domain url title scanData
        = (NeverSettles, db2\<lparr>current := t3\<rparr>)"
      using assms(2) False by (simp add: storePageResults_def Let_def db2_def score_def)
    have "set (tbl_violations t3) \<subseteq> set (tbl_violations (current db2))"
      using rp by (auto simp: replace_page_def delete_pages_def Let_def split: option.splits)
    then show ?thesis unfolding r using s2 v2 by auto
  qed
qed

text \<open>
  C1 fails on the program. Take a store that holds the page with one violation, and a
  persist operation for that page whose page upsert fails. The claim has the whole
  sequence rolled back and the page's violations as they were. In the program the
  callback of the page upsert calls \<open>this.db.run('ROLLBACK')\<close> with the statement as
  \<open>this\<close>: the call raises a \<open>TypeError\<close>, no \<open>ROLLBACK\<close> reaches the store and the
  promise is never settled. The transaction stays open with the website upsert in
  it, which has replaced the website's row and so removed its pages and their
  violations: the page's violation is gone, and the website carries the new
  compliance score. When no statement fails the outcome is alike: the \<open>DELETE\<close>, the
  inserts and the \<open>COMMIT\<close> are never issued, the promise is never settled, and the
  page is left without the old violation and without the new one.
\<close>

theorem storePageResults_no_rollback:
  "fst (storePageResults page_upsert_fails example_database ''a.org'' ''http://a.org/'' ''Home''
         (example_scan [''new-rule''])) = NeverSettles
   \<and> saved (snd (storePageResults page_upsert_fails example_database ''a.org'' ''http://a.org/''
         ''Home'' (example_scan [''new-rule'']))) \<noteq> None
   \<and> map vrow_violation_id (violations_of_page example_database ''http://a.org/'') = [''old-rule'']
   \<and> violations_of_page
         (snd (storePageResults page_upsert_fails example_database ''a.org'' ''http://a.org/''
            ''Home'' (example_scan [''new-rule'']))) ''http://a.org/'' = []
   \<and> map compliance_score (tbl_websites (current example_database)) = [Num 50]
   \<and> map compliance_score (tbl_websites (current
         (snd (storePageResults page_upsert_fails example_database ''a.org'' ''http://a.org/''
            ''Home'' (example_scan [''new-rule'']))))) = [Num 0]
   \<and> fst (storePageResults no_faults example_database ''a.org'' ''http://a.org/'' ''Home''
         (example_scan [''new-rule''])) = NeverSettles
   \<and> saved (snd (storePageResults no_faults example_database ''a.org'' ''http://a.org/''
         ''Home'' (example_scan [''new-rule'']))) \<noteq> None
   \<and> tbl_violations (current
         (snd (storePageResults no_faults example_database ''a.org'' ''http://a.org/''
            ''Home'' (example_scan [''new-rule''])))) = []"
  by code_simp

end
